theory Spec2Isabelle
  imports Main "HOL-Library.Word"
begin

unbundle bit_operations_syntax

section \<open>Receiver (pico\_receiver\_radiohead.ino): data and state\<close>

text \<open>
  The receiver's globals become one record. \<open>unsigned long\<close> is 32 bits on the target,
  so every timestamp is a \<open>32 word\<close> and every elapsed time \<open>millis() - t\<close> is a
  wrapping subtraction compared unsigned, as in the source.

  The NeoPixel strip is the list of the logical colours last passed to
  \<open>setPixelColor\<close> (packed \<open>0x00RRGGBB\<close>), together with the number of
  \<open>strip.show()\<close> calls made so far. The OLED is a pure output sink and is not
  part of the state; only the timestamp that throttles it is.
\<close>

record RadioPacket =
  packetCounter :: "32 word"
  sequenceId :: "8 word"

record receiver =
  propID :: "8 word"
  inTestMode :: bool
  inSetupMode :: bool
  inDiagnosticMode :: bool
  currentSequence :: "8 word"
  buttonPressFlag :: bool
  buttonPressTime :: "32 word"
  last_interrupt_time :: "32 word"
  lastPacketTime :: "32 word"
  lastActiveAnimationTime :: "32 word"
  animationStep :: "16 word"
  lastAnimationTime :: "32 word"
  lastDisplayUpdateTime :: "32 word"
  lastRSSI :: "16 word"
  frameDirty :: bool
  stripIsOff :: bool
  cylon_pos :: "32 word"
  cylon_dir :: "32 word"
  pixels :: "32 word list"
  showCount :: nat

text \<open>
  What one pass of \<open>loop()\<close> reads from outside: the clock, the radio driver, the
  button pin, the random generator and the library's colour function. One pass is
  taken as instantaneous: every \<open>millis()\<close> read inside it returns \<open>millis e\<close>.
\<close>

record env =
  millis :: "32 word"
  available :: bool
  recv :: "RadioPacket option"
  lastRssi :: "16 word"
  buttonLow :: bool
  random120 :: "16 word"
  gammaHSV :: "16 word \<Rightarrow> 32 word"

definition NUM_LEDS :: nat where
  "NUM_LEDS = 120"

definition PACKET_TIMEOUT_MS :: "32 word" where
  "PACKET_TIMEOUT_MS = 3000"

definition STRIP_TIMEOUT_MS :: "32 word" where
  "STRIP_TIMEOUT_MS = 1800000"

subsection \<open>Frame change tracking\<close>

definition markDirty :: "receiver \<Rightarrow> receiver" where
  "markDirty s = s\<lparr>frameDirty := True, stripIsOff := False\<rparr>"

definition markAllOff :: "receiver \<Rightarrow> receiver" where
  "markAllOff s = s\<lparr>stripIsOff := True, frameDirty := True\<rparr>"

definition strip_show :: "receiver \<Rightarrow> receiver" where
  "strip_show s = s\<lparr>showCount := Suc (showCount s)\<rparr>"

definition showIfDirty :: "receiver \<Rightarrow> receiver" where
  "showIfDirty s = (if frameDirty s then (strip_show s)\<lparr>frameDirty := False\<rparr> else s)"

subsection \<open>The strip's pixel buffer\<close>

definition strip_clear :: "receiver \<Rightarrow> receiver" where
  "strip_clear s = s\<lparr>pixels := map (\<lambda>_. 0) (pixels s)\<rparr>"

text \<open>The driver ignores a write beyond the last pixel and reads 0 there.\<close>

definition setPixelColor :: "nat \<Rightarrow> 32 word \<Rightarrow> receiver \<Rightarrow> receiver" where
  "setPixelColor n c s =
     (if n < NUM_LEDS \<and> n < length (pixels s) then s\<lparr>pixels := (pixels s)[n := c]\<rparr> else s)"

definition getPixelColor :: "nat \<Rightarrow> receiver \<Rightarrow> 32 word" where
  "getPixelColor n s = (if n < NUM_LEDS \<and> n < length (pixels s) then pixels s ! n else 0)"

definition Color :: "8 word \<Rightarrow> 8 word \<Rightarrow> 8 word \<Rightarrow> 32 word" where
  "Color r g b = push_bit 16 (ucast r) OR push_bit 8 (ucast g) OR ucast b"

subsection \<open>Interrupt service routine of the button\<close>

definition button_isr :: "32 word \<Rightarrow> receiver \<Rightarrow> receiver" where
  "button_isr interrupt_time s =
     (if interrupt_time - last_interrupt_time s > 200
      then s\<lparr>buttonPressFlag := True, buttonPressTime := interrupt_time,
             last_interrupt_time := interrupt_time\<rparr>
      else s\<lparr>last_interrupt_time := interrupt_time\<rparr>)"

subsection \<open>Animations\<close>

definition animationOff :: "receiver \<Rightarrow> receiver" where
  "animationOff s = (if \<not> stripIsOff s then markAllOff (strip_clear s) else s)"

definition fadeChannel :: "8 word \<Rightarrow> 32 word \<Rightarrow> 8 word" where
  "fadeChannel amount v = ucast (drop_bit 8 ((v AND 0xFF) * (255 - ucast amount)))"

definition fadePixel :: "8 word \<Rightarrow> nat \<Rightarrow> receiver \<Rightarrow> receiver" where
  "fadePixel amount i s =
     (let c = getPixelColor i s;
          r = fadeChannel amount (drop_bit 16 c);
          g = fadeChannel amount (drop_bit 8 c);
          b = fadeChannel amount c
      in setPixelColor i (Color r g b) s)"

definition fadeAll :: "8 word \<Rightarrow> receiver \<Rightarrow> receiver" where
  "fadeAll amount s = markDirty (fold (fadePixel amount) [0..<NUM_LEDS] s)"

definition rainbowHue :: "nat \<Rightarrow> 16 word \<Rightarrow> 16 word" where
  "rainbowHue i step =
     ucast ((word_of_nat i * 65536) div (word_of_nat NUM_LEDS) + ucast step * 256 :: 32 word)"

definition animationRainbow :: "env \<Rightarrow> receiver \<Rightarrow> receiver" where
  "animationRainbow e s =
     (if millis e - lastAnimationTime s < 16 then s
      else
        let s1 = s\<lparr>lastAnimationTime := millis e, animationStep := animationStep s + 1\<rparr>;
            s2 = fold (\<lambda>i. setPixelColor i (gammaHSV e (rainbowHue i (animationStep s1))))
                   [0..<NUM_LEDS] s1
        in markDirty s2)"

definition animationChase :: "env \<Rightarrow> receiver \<Rightarrow> receiver" where
  "animationChase e s =
     (if millis e - lastAnimationTime s < 16 then s
      else
        let s1 = fadeAll 200 (s\<lparr>lastAnimationTime := millis e\<rparr>);
            s2 = setPixelColor (unat (animationStep s1)) (Color 255 0 0) s1;
            s3 = s2\<lparr>animationStep := word_of_nat ((unat (animationStep s2) + 1) mod NUM_LEDS)\<rparr>
        in markDirty s3)"

definition animationWipe :: "env \<Rightarrow> receiver \<Rightarrow> receiver" where
  "animationWipe e s =
     (if millis e - lastAnimationTime s < 16 then s
      else
        let s1 = s\<lparr>lastAnimationTime := millis e\<rparr>;
            n = NUM_LEDS;
            s2 = (if unat (animationStep s1) < n
                  then setPixelColor (unat (animationStep s1)) (Color 0 0 255) s1
                  else if unat (animationStep s1) < 2 * n
                  then setPixelColor (unat (animationStep s1) - n) 0 s1
                  else s1);
            s3 = s2\<lparr>animationStep := animationStep s2 + 1\<rparr>;
            s4 = (if unat (animationStep s3) \<ge> 2 * n then s3\<lparr>animationStep := 0\<rparr> else s3)
        in markDirty s4)"

definition animationSparkle :: "env \<Rightarrow> receiver \<Rightarrow> receiver" where
  "animationSparkle e s =
     (if millis e - lastAnimationTime s < 16 then s
      else
        let s1 = fadeAll 100 (s\<lparr>lastAnimationTime := millis e\<rparr>);
            s2 = setPixelColor (unat (random120 e)) (Color 255 255 255) s1
        in markDirty s2)"

text \<open>
  \<open>pos\<close> and \<open>dir\<close> are function-local statics of type \<open>int\<close> (32 bits, compared
  signed); the pixel index is their conversion to \<open>uint16_t\<close>.
\<close>

definition animationCylon :: "env \<Rightarrow> receiver \<Rightarrow> receiver" where
  "animationCylon e s =
     (if millis e - lastAnimationTime s < 16 then s
      else
        let s1 = fadeAll 40 (s\<lparr>lastAnimationTime := millis e\<rparr>);
            s2 = setPixelColor (unat (ucast (cylon_pos s1) :: 16 word)) (Color 255 0 0) s1;
            s3 = s2\<lparr>cylon_pos := cylon_pos s2 + cylon_dir s2\<rparr>;
            s4 = (if sint (cylon_pos s3) \<le> 0 \<or> sint (cylon_pos s3) \<ge> int NUM_LEDS - 1
                  then s3\<lparr>cylon_dir := - cylon_dir s3\<rparr> else s3)
        in markDirty s4)"

definition runSequence :: "env \<Rightarrow> receiver \<Rightarrow> receiver" where
  "runSequence e s =
     (if currentSequence s = 0 then animationOff s
      else if currentSequence s = 1 then animationRainbow e s
      else if currentSequence s = 2 then animationChase e s
      else if currentSequence s = 3 then animationWipe e s
      else if currentSequence s = 4 then animationSparkle e s
      else if currentSequence s = 5 then animationCylon e s
      else animationOff s)"

subsection \<open>The main loop, one pass\<close>

text \<open>
  \<open>received e\<close> is the packet of this pass, if \<open>driver.available()\<close> and
  \<open>driver.recv\<close> both succeed.
\<close>

definition received :: "env \<Rightarrow> RadioPacket option" where
  "received e = (if available e then recv e else None)"

definition handleRadioInput :: "env \<Rightarrow> receiver \<Rightarrow> receiver" where
  "handleRadioInput e s =
     (case received e of
        None \<Rightarrow> s
      | Some packet \<Rightarrow>
          let s1 = s\<lparr>lastPacketTime := millis e, lastRSSI := lastRssi e\<rparr>
          in if currentSequence s1 \<noteq> sequenceId packet
             then
               let s2 = markDirty (strip_clear
                          (s1\<lparr>currentSequence := sequenceId packet, animationStep := 0\<rparr>))
               in if currentSequence s2 > 0
                  then s2\<lparr>lastActiveAnimationTime := millis e\<rparr> else s2
             else s1)"

definition handleTimeouts :: "env \<Rightarrow> receiver \<Rightarrow> receiver" where
  "handleTimeouts e s =
     (let s1 = (if millis e - lastPacketTime s > PACKET_TIMEOUT_MS
                then (if currentSequence s \<noteq> 0
                      then s\<lparr>currentSequence := 0, animationStep := 0\<rparr> else s)
                else s)
      in if currentSequence s1 \<noteq> 0 \<and> millis e - lastActiveAnimationTime s1 > STRIP_TIMEOUT_MS
         then s1\<lparr>currentSequence := 0, animationStep := 0\<rparr>
         else s1)"

definition handleButtonInput :: "env \<Rightarrow> receiver \<Rightarrow> receiver" where
  "handleButtonInput e s =
     (if buttonPressFlag s
      then
        (if buttonLow e
         then
           (if \<not> inDiagnosticMode s \<and> millis e - buttonPressTime s \<ge> 5000
            then s\<lparr>inDiagnosticMode := True, inTestMode := False,
                   currentSequence := 0, buttonPressFlag := False\<rparr>
            else s)
         else
           (let s1 = (if inDiagnosticMode s
                      then s\<lparr>inDiagnosticMode := False\<rparr>
                      else s\<lparr>inTestMode := \<not> inTestMode s, currentSequence := 0\<rparr>)
            in s1\<lparr>animationStep := 0, buttonPressFlag := False\<rparr>))
      else s)"

definition runLEDs :: "env \<Rightarrow> receiver \<Rightarrow> receiver" where
  "runLEDs e s =
     (if inDiagnosticMode s then animationOff s
      else if inTestMode s then animationRainbow e s
      else runSequence e s)"

definition updateDisplayThrottled :: "env \<Rightarrow> receiver \<Rightarrow> receiver" where
  "updateDisplayThrottled e s =
     (if millis e - lastDisplayUpdateTime s > 250
      then s\<lparr>lastDisplayUpdateTime := millis e\<rparr> else s)"

text \<open>Steps 1 to 3 of \<open>loop()\<close> decide; steps 4 and 5 render.\<close>

definition control :: "env \<Rightarrow> receiver \<Rightarrow> receiver" where
  "control e s = handleButtonInput e (handleTimeouts e (handleRadioInput e s))"

definition loop :: "env \<Rightarrow> receiver \<Rightarrow> receiver" where
  "loop e s = updateDisplayThrottled e (showIfDirty (runLEDs e (control e s)))"

subsection \<open>Persistent identifier and start-up\<close>

type_synonym eeprom = "nat \<Rightarrow> 8 word"

definition savePropID :: "8 word \<Rightarrow> eeprom \<Rightarrow> eeprom" where
  "savePropID ident rom = rom(0 := ident)"

definition loadPropID :: "eeprom \<Rightarrow> 8 word \<times> eeprom" where
  "loadPropID rom =
     (let ident = rom 0
      in if ident < 1 \<or> ident > 18 then (1, savePropID 1 rom) else (ident, rom))"

text \<open>The globals as their initialisers leave them, with a blank pixel buffer.\<close>

definition power_on :: receiver where
  "power_on =
     \<lparr>propID = 1, inTestMode = False, inSetupMode = False, inDiagnosticMode = False,
      currentSequence = 0, buttonPressFlag = False, buttonPressTime = 0,
      last_interrupt_time = 0, lastPacketTime = 0, lastActiveAnimationTime = 0,
      animationStep = 0, lastAnimationTime = 0, lastDisplayUpdateTime = 0, lastRSSI = 0,
      frameDirty = False, stripIsOff = True, cylon_pos = 0, cylon_dir = 1,
      pixels = replicate NUM_LEDS 0, showCount = 0\<rparr>"

text \<open>
  \<open>setup()\<close> on the path that reaches \<open>loop()\<close>: the button is not held at power-on
  and the radio initialises.
\<close>

definition setup_receiver :: "eeprom \<Rightarrow> receiver" where
  "setup_receiver rom =
     (let s1 = showIfDirty (markAllOff (strip_clear power_on))
      in s1\<lparr>propID := fst (loadPropID rom)\<rparr>)"

subsection \<open>Runs of the receiver\<close>

text \<open>
  Between two passes of the loop the button interrupt may fire. A run is a list of
  such events, oldest first.
\<close>

datatype event = Pass env | Interrupt "32 word"

fun fire :: "event \<Rightarrow> receiver \<Rightarrow> receiver" where
  "fire (Pass e) s = loop e s"
| "fire (Interrupt t) s = button_isr t s"

fun run :: "event list \<Rightarrow> receiver \<Rightarrow> receiver" where
  "run [] s = s"
| "run (ev # evs) s = run evs (fire ev s)"

fun silent :: "event \<Rightarrow> bool" where
  "silent (Pass e) = (received e = None)"
| "silent (Interrupt t) = True"

inductive reachable :: "receiver \<Rightarrow> bool" where
  start: "reachable (setup_receiver rom)"
| pass: "reachable s \<Longrightarrow> reachable (loop e s)"
| press: "reachable s \<Longrightarrow> reachable (button_isr t s)"

text \<open>
  The operating mode the flags stand for, read in the order in which
  \<open>updateDisplay\<close> tests them for its mode label.
\<close>

datatype OperatingMode = Ready | Test | Diagnostic | Setup

definition mode :: "receiver \<Rightarrow> OperatingMode" where
  "mode s =
     (if inDiagnosticMode s then Diagnostic
      else if inSetupMode s then Setup
      else if inTestMode s then Test
      else Ready)"

subsection \<open>Button gestures and rendering, as the loop decides them\<close>

text \<open>
  The guards of the two branches of step 3 of \<open>loop()\<close>: the release branch
  (a short press) and the long-press branch.
\<close>

definition shortPress :: "env \<Rightarrow> receiver \<Rightarrow> bool" where
  "shortPress e s = (buttonPressFlag s \<and> \<not> buttonLow e)"

definition longHoldConfirmed :: "env \<Rightarrow> receiver \<Rightarrow> bool" where
  "longHoldConfirmed e s =
     (buttonPressFlag s \<and> buttonLow e \<and> \<not> inDiagnosticMode s
      \<and> millis e - buttonPressTime s \<ge> 5000)"

text \<open>How many passes of a run of passes take the long-press branch.\<close>

fun longHoldCount :: "env list \<Rightarrow> receiver \<Rightarrow> nat" where
  "longHoldCount [] s = 0"
| "longHoldCount (e # es) s =
     (if longHoldConfirmed e (handleTimeouts e (handleRadioInput e s)) then 1 else 0)
       + longHoldCount es (loop e s)"

text \<open>The pass receives a packet whose sequenceId is \<open>q\<close>.\<close>

definition carries :: "8 word \<Rightarrow> env \<Rightarrow> bool" where
  "carries q e = (case received e of None \<Rightarrow> False | Some p \<Rightarrow> sequenceId p = q)"

text \<open>The pass receives no packet whose sequenceId differs from \<open>q\<close>.\<close>

definition noChange :: "8 word \<Rightarrow> env \<Rightarrow> bool" where
  "noChange q e = (case received e of None \<Rightarrow> True | Some p \<Rightarrow> sequenceId p = q)"

text \<open>
  The sequence is sustained along a run: before every event and at the end the
  stored sequence is not 0, and no pass of the run receives a packet whose sequenceId
  differs from the sequence stored when that pass begins. Passes that receive nothing
  and button interrupts are allowed.
\<close>

fun calm :: "8 word \<Rightarrow> event \<Rightarrow> bool" where
  "calm q (Pass e) = noChange q e"
| "calm q (Interrupt t) = True"

fun sustained :: "event list \<Rightarrow> receiver \<Rightarrow> bool" where
  "sustained [] s = (currentSequence s \<noteq> 0)"
| "sustained (ev # evs) s =
     (currentSequence s \<noteq> 0 \<and> calm (currentSequence s) ev \<and> sustained evs (fire ev s))"

text \<open>
  The animation table of the specification (section 4.3), to be compared with
  \<open>runSequence\<close>; it lists the indices 0 to 5 only.
\<close>

datatype pattern = Off | Rainbow | Chase | Wipe | Sparkle | Cylon

definition pattern_table :: "nat \<Rightarrow> pattern option" where
  "pattern_table n =
     (if n = 0 then Some Off else if n = 1 then Some Rainbow else if n = 2 then Some Chase
      else if n = 3 then Some Wipe else if n = 4 then Some Sparkle
      else if n = 5 then Some Cylon else None)"

fun animate :: "pattern \<Rightarrow> env \<Rightarrow> receiver \<Rightarrow> receiver" where
  "animate Off e s = animationOff s"
| "animate Rainbow e s = animationRainbow e s"
| "animate Chase e s = animationChase e s"
| "animate Wipe e s = animationWipe e s"
| "animate Sparkle e s = animationSparkle e s"
| "animate Cylon e s = animationCylon e s"

text \<open>Step 4 of the loop calls \<open>animationOff\<close> in exactly these states.\<close>

definition rendersOff :: "receiver \<Rightarrow> bool" where
  "rendersOff s =
     (inDiagnosticMode s \<or> (\<not> inTestMode s \<and> (currentSequence s = 0 \<or> currentSequence s > 5)))"

text \<open>
  The part of the state that the animations of step 4 never write: everything but
  the pixel buffer, the two frame flags and the animation cursors.
\<close>

definition decided :: "receiver \<Rightarrow> receiver" where
  "decided s = s\<lparr>pixels := [], frameDirty := False, stripIsOff := False,
     lastAnimationTime := 0, animationStep := 0, cylon_pos := 0, cylon_dir := 0\<rparr>"

section \<open>Receiver: the Setup sub-mode\<close>

text \<open>
  \<open>handleSetupMode\<close> polls for ever and leaves only through the watchdog reboot. Each
  iteration reads the pin and the clock once (a \<open>poll\<close>). A run over a list of polls
  ends in \<open>Inl rom\<close> when the device has saved and restarted with EEPROM contents
  \<open>rom\<close>, and in \<open>Inr st\<close> when the polls are used up and the loop is still
  running with locals \<open>st\<close>.
\<close>

record setup_locals =
  tempPropID :: "8 word"
  pressStartTime :: "32 word"
  isPressed :: bool
  lastIsPressed :: bool

record poll =
  poll_millis :: "32 word"
  poll_low :: bool

definition setup_iteration :: "poll \<Rightarrow> eeprom \<Rightarrow> setup_locals \<Rightarrow> eeprom + setup_locals" where
  "setup_iteration p rom st =
     (let st1 = st\<lparr>isPressed := poll_low p\<rparr>;
          st2 = (if isPressed st1 \<and> \<not> lastIsPressed st1
                 then st1\<lparr>pressStartTime := poll_millis p\<rparr> else st1);
          st3 = (if \<not> isPressed st2 \<and> lastIsPressed st2
                 then (let t = tempPropID st2 + 1
                       in st2\<lparr>tempPropID := (if t > 18 then 1 else t)\<rparr>)
                 else st2)
      in if isPressed st3 \<and> poll_millis p - pressStartTime st3 > 3000
         then Inl (savePropID (tempPropID st3) rom)
         else Inr (st3\<lparr>lastIsPressed := isPressed st3\<rparr>))"

fun setup_polls :: "poll list \<Rightarrow> eeprom \<Rightarrow> setup_locals \<Rightarrow> eeprom + setup_locals" where
  "setup_polls [] rom st = Inr st"
| "setup_polls (p # ps) rom st =
     (case setup_iteration p rom st of
        Inl rom' \<Rightarrow> Inl rom'
      | Inr st' \<Rightarrow> setup_polls ps rom st')"

definition handleSetupMode :: "8 word \<Rightarrow> poll list \<Rightarrow> eeprom \<Rightarrow> eeprom + setup_locals" where
  "handleSetupMode ident ps rom =
     setup_polls ps rom
       \<lparr>tempPropID = ident, pressStartTime = 0, isPressed = False, lastIsPressed = False\<rparr>"

text \<open>The identifier after the candidate: one more, and 1 after 18.\<close>

definition nextID :: "8 word \<Rightarrow> 8 word" where
  "nextID t = (if t = 18 then 1 else t + 1)"

section \<open>Transmitter (uno\_remote\_radiohead.ino)\<close>

text \<open>
  The transmitter's globals, with the packets handed to \<open>driver.send\<close> so far, oldest
  first. Names shared with the receiver carry the prefix \<open>remote_\<close>.
\<close>

datatype level = LOW | HIGH

record remote =
  remote_currentSequence :: "8 word"
  lastHeartbeatTime :: "32 word"
  remote_packetCounter :: "32 word"
  displayNeedsUpdate :: bool
  lastActivityTime :: "32 word"
  lcdBacklightOn :: bool
  cycleButtonState :: level
  lastCycleButtonState :: level
  lastCycleDebounceTime :: "32 word"
  offButtonState :: level
  lastOffButtonState :: level
  lastOffDebounceTime :: "32 word"
  ledIsOn :: bool
  ledOnTime :: "32 word"
  sent :: "RadioPacket list"

record remote_env =
  remote_millis :: "32 word"
  cycleReading :: level
  offReading :: level

definition HEARTBEAT_INTERVAL :: "32 word" where
  "HEARTBEAT_INTERVAL = 500"

definition LCD_TIMEOUT_MS :: "32 word" where
  "LCD_TIMEOUT_MS = 300000"

definition DEBOUNCE_DELAY_MS :: "32 word" where
  "DEBOUNCE_DELAY_MS = 50"

definition transmitSequence :: "remote_env \<Rightarrow> remote \<Rightarrow> remote" where
  "transmitSequence e r =
     (let r1 = r\<lparr>remote_packetCounter := remote_packetCounter r + 1\<rparr>;
          packet = \<lparr>packetCounter = remote_packetCounter r1,
                    sequenceId = remote_currentSequence r1\<rparr>
      in r1\<lparr>sent := sent r1 @ [packet], ledIsOn := True, ledOnTime := remote_millis e\<rparr>)"

definition remote_updateDisplay :: "remote \<Rightarrow> remote" where
  "remote_updateDisplay r = r\<lparr>displayNeedsUpdate := False\<rparr>"

definition checkCycleButtonPress :: "remote_env \<Rightarrow> remote \<Rightarrow> bool \<times> remote" where
  "checkCycleButtonPress e r =
     (let reading = cycleReading e;
          r1 = (if reading \<noteq> lastCycleButtonState r
                then r\<lparr>lastCycleDebounceTime := remote_millis e\<rparr> else r);
          (pressed, r2) =
            (if remote_millis e - lastCycleDebounceTime r1 > DEBOUNCE_DELAY_MS
             then (if reading \<noteq> cycleButtonState r1
                   then (reading = LOW, r1\<lparr>cycleButtonState := reading\<rparr>)
                   else (False, r1))
             else (False, r1))
      in (pressed, r2\<lparr>lastCycleButtonState := reading\<rparr>))"

definition checkOffButtonPress :: "remote_env \<Rightarrow> remote \<Rightarrow> bool \<times> remote" where
  "checkOffButtonPress e r =
     (let reading = offReading e;
          r1 = (if reading \<noteq> lastOffButtonState r
                then r\<lparr>lastOffDebounceTime := remote_millis e\<rparr> else r);
          (pressed, r2) =
            (if remote_millis e - lastOffDebounceTime r1 > DEBOUNCE_DELAY_MS
             then (if reading \<noteq> offButtonState r1
                   then (reading = LOW, r1\<lparr>offButtonState := reading\<rparr>)
                   else (False, r1))
             else (False, r1))
      in (pressed, r2\<lparr>lastOffButtonState := reading\<rparr>))"

text \<open>The three sending steps of the transmitter's \<open>loop()\<close>, then the whole pass.\<close>

definition cycleStep :: "remote_env \<Rightarrow> remote \<Rightarrow> remote" where
  "cycleStep e r =
     (let (pressed, r1) = checkCycleButtonPress e r
      in if pressed
         then
           (let r2 = r1\<lparr>lastActivityTime := remote_millis e, lcdBacklightOn := True\<rparr>;
                r3 = r2\<lparr>remote_currentSequence := remote_currentSequence r2 + 1\<rparr>;
                r4 = (if remote_currentSequence r3 > 5
                      then r3\<lparr>remote_currentSequence := 0\<rparr> else r3);
                r5 = transmitSequence e r4
            in r5\<lparr>lastHeartbeatTime := remote_millis e, displayNeedsUpdate := True\<rparr>)
         else r1)"

definition offStep :: "remote_env \<Rightarrow> remote \<Rightarrow> remote" where
  "offStep e r =
     (let (pressed, r1) = checkOffButtonPress e r
      in if pressed
         then
           (let r2 = r1\<lparr>lastActivityTime := remote_millis e, lcdBacklightOn := True\<rparr>
            in if remote_currentSequence r2 \<noteq> 0
               then
                 (let r3 = transmitSequence e (r2\<lparr>remote_currentSequence := 0\<rparr>)
                  in r3\<lparr>lastHeartbeatTime := remote_millis e, displayNeedsUpdate := True\<rparr>)
               else r2)
         else r1)"

definition heartbeatStep :: "remote_env \<Rightarrow> remote \<Rightarrow> remote" where
  "heartbeatStep e r =
     (if remote_millis e - lastHeartbeatTime r \<ge> HEARTBEAT_INTERVAL
      then (transmitSequence e (r\<lparr>lastHeartbeatTime := remote_millis e\<rparr>))
             \<lparr>displayNeedsUpdate := True\<rparr>
      else r)"

definition remote_loop :: "remote_env \<Rightarrow> remote \<Rightarrow> remote" where
  "remote_loop e r =
     (let r1 = cycleStep e r;
          r2 = offStep e r1;
          r3 = heartbeatStep e r2;
          r4 = (if lcdBacklightOn r3 \<and> remote_millis e - lastActivityTime r3 > LCD_TIMEOUT_MS
                then r3\<lparr>lcdBacklightOn := False\<rparr> else r3);
          r5 = (if ledIsOn r4 \<and> remote_millis e - ledOnTime r4 \<ge> 50
                then r4\<lparr>ledIsOn := False\<rparr> else r4)
      in if displayNeedsUpdate r5 then remote_updateDisplay r5 else r5)"

text \<open>
  The transmitter when \<open>setup()\<close> has returned at time \<open>t\<close> (the radio
  initialised).
\<close>

definition remote_setup :: "32 word \<Rightarrow> remote" where
  "remote_setup t =
     \<lparr>remote_currentSequence = 0, lastHeartbeatTime = 0, remote_packetCounter = 0,
      displayNeedsUpdate = False, lastActivityTime = t, lcdBacklightOn = True,
      cycleButtonState = HIGH, lastCycleButtonState = HIGH, lastCycleDebounceTime = 0,
      offButtonState = HIGH, lastOffButtonState = HIGH, lastOffDebounceTime = 0,
      ledIsOn = False, ledOnTime = 0, sent = []\<rparr>"

text \<open>
  What a pass of the transmitter sees: whether each debounced press is detected, the
  sequence the cycle button selects, and whether the heartbeat is due.
\<close>

definition cyclePressed :: "remote_env \<Rightarrow> remote \<Rightarrow> bool" where
  "cyclePressed e r = fst (checkCycleButtonPress e r)"

definition offPressed :: "remote_env \<Rightarrow> remote \<Rightarrow> bool" where
  "offPressed e r = fst (checkOffButtonPress e r)"

definition cycled :: "8 word \<Rightarrow> 8 word" where
  "cycled q = (if q + 1 > 5 then 0 else q + 1)"

definition heartbeatDue :: "remote_env \<Rightarrow> remote \<Rightarrow> bool" where
  "heartbeatDue e r = (remote_millis e - lastHeartbeatTime r \<ge> HEARTBEAT_INTERVAL)"

section \<open>Sample inputs\<close>

definition idle_at :: "32 word \<Rightarrow> env" where
  "idle_at t =
     \<lparr>millis = t, available = False, recv = None, lastRssi = 0, buttonLow = False,
      random120 = 0, gammaHSV = (\<lambda>_. 0)\<rparr>"

definition held_at :: "32 word \<Rightarrow> env" where
  "held_at t = (idle_at t)\<lparr>buttonLow := True\<rparr>"

definition packet_at :: "32 word \<Rightarrow> 8 word \<Rightarrow> env" where
  "packet_at t q =
     (idle_at t)\<lparr>available := True, recv := Some \<lparr>packetCounter = 1, sequenceId = q\<rparr>\<rparr>"

definition held_packet_at :: "32 word \<Rightarrow> 8 word \<Rightarrow> env" where
  "held_packet_at t q = (packet_at t q)\<lparr>buttonLow := True\<rparr>"

definition rom1 :: eeprom where
  "rom1 = (\<lambda>_. 1)"

definition reads :: "32 word \<Rightarrow> level \<Rightarrow> level \<Rightarrow> remote_env" where
  "reads t c off = \<lparr>remote_millis = t, cycleReading = c, offReading = off\<rparr>"

text \<open>
  A run that the receiver can make: a press held into Diagnostic, a packet selecting
  sequence 3 while there, and a second press (not yet released).
\<close>

definition in_diagnostic_with_3 :: receiver where
  "in_diagnostic_with_3 =
     run [Interrupt 1000, Pass (held_at 6000), Pass (held_packet_at 7000 3), Interrupt 8000]
       (setup_receiver rom1)"

text \<open>The receiver in Test mode after one short press, and in Ready running sequence 2.\<close>

definition in_test_mode :: receiver where
  "in_test_mode = run [Interrupt 1000, Pass (idle_at 1100)] (setup_receiver rom1)"

definition running_chase :: receiver where
  "running_chase = loop (packet_at 1000 2) (setup_receiver rom1)"

text \<open>The receiver held into Diagnostic, the press consumed.\<close>

definition in_diagnostic :: receiver where
  "in_diagnostic = run [Interrupt 1000, Pass (held_at 6000)] (setup_receiver rom1)"

text \<open>Locals of the Setup loop with a given candidate and the button released.\<close>

definition candidate :: "8 word \<Rightarrow> setup_locals" where
  "candidate ident =
     \<lparr>tempPropID = ident, pressStartTime = 0, isPressed = False, lastIsPressed = False\<rparr>"

definition polled :: "32 word \<Rightarrow> bool \<Rightarrow> poll" where
  "polled t low = \<lparr>poll_millis = t, poll_low = low\<rparr>"

section \<open>Receiver: what each step of the loop leaves alone\<close>

lemma fold_keeps: "(\<And>i s. g (f i s) = g s) \<Longrightarrow> g (fold f xs s) = g s"
  by (induction xs arbitrary: s) simp_all

lemma decided_setPixelColor: "decided (setPixelColor n c s) = decided s"
  by (simp add: decided_def setPixelColor_def)

lemma decided_markDirty: "decided (markDirty s) = decided s"
  by (simp add: decided_def markDirty_def)

lemma decided_fadeAll: "decided (fadeAll a s) = decided s"
proof -
  have "decided (fold (fadePixel a) xs s) = decided s" for xs
    by (rule fold_keeps) (simp add: fadePixel_def Let_def decided_setPixelColor)
  then show ?thesis by (simp add: fadeAll_def decided_markDirty)
qed

lemma decided_cursor:
  "decided (s\<lparr>lastAnimationTime := t\<rparr>) = decided s"
  "decided (s\<lparr>animationStep := k\<rparr>) = decided s"
  "decided (s\<lparr>cylon_pos := x\<rparr>) = decided s"
  "decided (s\<lparr>cylon_dir := x\<rparr>) = decided s"
  by (simp_all add: decided_def)

lemmas decided_simps = decided_setPixelColor decided_markDirty decided_fadeAll decided_cursor

lemma decided_animationOff: "decided (animationOff s) = decided s"
  by (simp add: animationOff_def markAllOff_def strip_clear_def decided_def)

lemma decided_animationRainbow: "decided (animationRainbow e s) = decided s"
proof -
  have "decided (fold (\<lambda>i. setPixelColor i (h i)) xs t) = decided t" for xs t h
    by (rule fold_keeps) (simp add: decided_setPixelColor)
  then show ?thesis
    by (simp add: animationRainbow_def Let_def decided_markDirty) (simp add: decided_def)
qed

lemma decided_animationChase: "decided (animationChase e s) = decided s"
  by (simp add: animationChase_def Let_def decided_simps)

lemma decided_animationWipe: "decided (animationWipe e s) = decided s"
  by (simp add: animationWipe_def Let_def decided_simps)

lemma decided_animationSparkle: "decided (animationSparkle e s) = decided s"
  by (simp add: animationSparkle_def Let_def decided_simps)

lemma decided_animationCylon: "decided (animationCylon e s) = decided s"
  by (simp add: animationCylon_def Let_def decided_simps)

lemma decided_runSequence: "decided (runSequence e s) = decided s"
  by (simp add: runSequence_def decided_animationOff decided_animationRainbow
      decided_animationChase decided_animationWipe decided_animationSparkle
      decided_animationCylon)

lemma decided_runLEDs: "decided (runLEDs e s) = decided s"
  by (simp add: runLEDs_def decided_animationOff decided_animationRainbow decided_runSequence)

lemma decided_fields:
  "currentSequence (decided s) = currentSequence s"
  "inDiagnosticMode (decided s) = inDiagnosticMode s"
  "inTestMode (decided s) = inTestMode s"
  "inSetupMode (decided s) = inSetupMode s"
  "buttonPressFlag (decided s) = buttonPressFlag s"
  "buttonPressTime (decided s) = buttonPressTime s"
  "last_interrupt_time (decided s) = last_interrupt_time s"
  "lastPacketTime (decided s) = lastPacketTime s"
  "lastActiveAnimationTime (decided s) = lastActiveAnimationTime s"
  "showCount (decided s) = showCount s"
  by (simp_all add: decided_def)

lemma runLEDs_fields:
  "currentSequence (runLEDs e s) = currentSequence s"
  "inDiagnosticMode (runLEDs e s) = inDiagnosticMode s"
  "inTestMode (runLEDs e s) = inTestMode s"
  "inSetupMode (runLEDs e s) = inSetupMode s"
  "buttonPressFlag (runLEDs e s) = buttonPressFlag s"
  "buttonPressTime (runLEDs e s) = buttonPressTime s"
  "last_interrupt_time (runLEDs e s) = last_interrupt_time s"
  "lastPacketTime (runLEDs e s) = lastPacketTime s"
  "lastActiveAnimationTime (runLEDs e s) = lastActiveAnimationTime s"
  "showCount (runLEDs e s) = showCount s"
  using decided_runLEDs [of e s] decided_fields by metis+

lemma loop_fields:
  "currentSequence (loop e s) = currentSequence (control e s)"
  "inDiagnosticMode (loop e s) = inDiagnosticMode (control e s)"
  "inTestMode (loop e s) = inTestMode (control e s)"
  "inSetupMode (loop e s) = inSetupMode (control e s)"
  "buttonPressFlag (loop e s) = buttonPressFlag (control e s)"
  "buttonPressTime (loop e s) = buttonPressTime (control e s)"
  "last_interrupt_time (loop e s) = last_interrupt_time (control e s)"
  "lastPacketTime (loop e s) = lastPacketTime (control e s)"
  "lastActiveAnimationTime (loop e s) = lastActiveAnimationTime (control e s)"
  by (simp_all add: loop_def updateDisplayThrottled_def showIfDirty_def strip_show_def
      runLEDs_fields)

lemma before_button_fields:
  "inDiagnosticMode (handleTimeouts e (handleRadioInput e s)) = inDiagnosticMode s"
  "inTestMode (handleTimeouts e (handleRadioInput e s)) = inTestMode s"
  "inSetupMode (handleTimeouts e (handleRadioInput e s)) = inSetupMode s"
  "buttonPressFlag (handleTimeouts e (handleRadioInput e s)) = buttonPressFlag s"
  "buttonPressTime (handleTimeouts e (handleRadioInput e s)) = buttonPressTime s"
  "last_interrupt_time (handleTimeouts e (handleRadioInput e s)) = last_interrupt_time s"
  by (simp_all add: handleTimeouts_def handleRadioInput_def Let_def markDirty_def
      strip_clear_def split: option.splits)

lemma button_keeps_times:
  "lastPacketTime (handleButtonInput e s) = lastPacketTime s"
  "lastActiveAnimationTime (handleButtonInput e s) = lastActiveAnimationTime s"
  "inSetupMode (handleButtonInput e s) = inSetupMode s"
  "buttonPressTime (handleButtonInput e s) = buttonPressTime s"
  "last_interrupt_time (handleButtonInput e s) = last_interrupt_time s"
  by (simp_all add: handleButtonInput_def Let_def)

lemma idle_button: "\<not> buttonPressFlag s \<Longrightarrow> handleButtonInput e s = s"
  by (simp add: handleButtonInput_def)

lemma rendersOff_runLEDs: "rendersOff s \<Longrightarrow> runLEDs e s = animationOff s"
proof -
  assume a: "rendersOff s"
  have "currentSequence s > 5 \<Longrightarrow> runSequence e s = animationOff s"
    by (auto simp: runSequence_def)
  moreover have "currentSequence s = 0 \<Longrightarrow> runSequence e s = animationOff s"
    by (simp add: runSequence_def)
  ultimately show ?thesis using a by (auto simp: rendersOff_def runLEDs_def)
qed

lemmas sample_defs = idle_at_def held_at_def packet_at_def held_packet_at_def rom1_def
  received_def

lemmas control_defs = control_def handleButtonInput_def handleTimeouts_def
  handleRadioInput_def button_isr_def markDirty_def strip_clear_def Let_def
  PACKET_TIMEOUT_MS_def STRIP_TIMEOUT_MS_def

lemmas setup_defs = setup_receiver_def power_on_def showIfDirty_def markAllOff_def
  strip_show_def strip_clear_def loadPropID_def savePropID_def NUM_LEDS_def

lemmas render_defs = loop_def runLEDs_def runSequence_def animationOff_def
  updateDisplayThrottled_def setPixelColor_def

section \<open>Receiver: packets outside the table\<close>

text \<open>
  C10. A received packet is stored as it is, whatever its sequenceId: step 1 of the
  loop makes it the current sequence, and resets the animation cursor when it differs
  from the stored one. For a sequenceId above 5, \<open>runSequence\<close> takes its default
  branch, \<open>animationOff\<close>; and a whole pass in Ready mode with no button event
  pending, receiving such a value that differs from the stored one, ends with the
  value stored, the strip cleared and one flush.
\<close>

theorem out_of_range_packet_stored:
  assumes got: "received e = Some p" and big: "5 < sequenceId p"
  shows "currentSequence (handleRadioInput e s) = sequenceId p
    \<and> (if sequenceId p \<noteq> currentSequence s
        then animationStep (handleRadioInput e s) = 0
        else animationStep (handleRadioInput e s) = animationStep s)
    \<and> runSequence e (handleRadioInput e s) = animationOff (handleRadioInput e s)
    \<and> (\<not> buttonPressFlag s \<and> \<not> inDiagnosticMode s \<and> \<not> inTestMode s
         \<and> sequenceId p \<noteq> currentSequence s \<longrightarrow>
       currentSequence (loop e s) = sequenceId p
       \<and> pixels (loop e s) = map (\<lambda>_. 0) (pixels s)
       \<and> stripIsOff (loop e s)
       \<and> showCount (loop e s) = Suc (showCount s))"
proof -
  let ?r = "handleRadioInput e s"
  have stored: "currentSequence ?r = sequenceId p"
    using got by (simp add: handleRadioInput_def Let_def markDirty_def strip_clear_def)
  have step: "if sequenceId p \<noteq> currentSequence s
        then animationStep ?r = 0 else animationStep ?r = animationStep s"
    using got by (simp add: handleRadioInput_def Let_def markDirty_def strip_clear_def)
  have off: "runSequence e t = animationOff t" if "currentSequence t = sequenceId p" for t
    using big that by (auto simp: runSequence_def)
  have pos: "sequenceId p > 0"
    using big by (metis not_less_iff_gr_or_eq word_not_simps(1))
  have whole: "currentSequence (loop e s) = sequenceId p
       \<and> pixels (loop e s) = map (\<lambda>_. 0) (pixels s)
       \<and> stripIsOff (loop e s)
       \<and> showCount (loop e s) = Suc (showCount s)"
    if idle: "\<not> buttonPressFlag s" and ready: "\<not> inDiagnosticMode s" "\<not> inTestMode s"
      and new: "sequenceId p \<noteq> currentSequence s"
  proof -
    have r: "?r = (markDirty (strip_clear (s\<lparr>lastPacketTime := millis e,
                lastRSSI := lastRssi e, currentSequence := sequenceId p,
                animationStep := 0\<rparr>)))\<lparr>lastActiveAnimationTime := millis e\<rparr>"
      using got new pos
      by (simp add: handleRadioInput_def Let_def markDirty_def strip_clear_def)
    have t: "handleTimeouts e ?r = ?r"
      unfolding r by (simp add: handleTimeouts_def Let_def markDirty_def strip_clear_def
          PACKET_TIMEOUT_MS_def STRIP_TIMEOUT_MS_def)
    have c: "control e s = ?r"
      unfolding control_def t using idle
      by (simp add: r handleButtonInput_def markDirty_def strip_clear_def)
    have l: "runLEDs e ?r = animationOff ?r"
      using ready off [OF stored] by (simp add: runLEDs_def r markDirty_def strip_clear_def)
    show ?thesis
      unfolding loop_def c l
      by (simp add: r animationOff_def markDirty_def strip_clear_def markAllOff_def
          showIfDirty_def strip_show_def updateDisplayThrottled_def)
  qed
  show ?thesis using stored step off [OF stored] whole by blast
qed

theorem out_of_range_packet_stored_witness:
  "received (packet_at 1000 200) = Some \<lparr>packetCounter = 1, sequenceId = 200\<rparr>
   \<and> \<not> buttonPressFlag (setup_receiver rom1)
   \<and> \<not> inDiagnosticMode (setup_receiver rom1) \<and> \<not> inTestMode (setup_receiver rom1)
   \<and> currentSequence (setup_receiver rom1) = 0
   \<and> currentSequence (handleRadioInput (packet_at 1000 200) (setup_receiver rom1)) = 200
   \<and> currentSequence (loop (packet_at 1000 200) (setup_receiver rom1)) = 200
   \<and> stripIsOff (loop (packet_at 1000 200) (setup_receiver rom1))
   \<and> showCount (loop (packet_at 1000 200) (setup_receiver rom1))
       = Suc (showCount (setup_receiver rom1))"
proof -
  have got: "received (packet_at 1000 200) = Some \<lparr>packetCounter = 1, sequenceId = 200\<rparr>"
    by (simp add: sample_defs)
  have big: "5 < sequenceId \<lparr>packetCounter = 1, sequenceId = 200 :: 8 word\<rparr>"
    by simp
  have st: "\<not> buttonPressFlag (setup_receiver rom1)"
    "\<not> inDiagnosticMode (setup_receiver rom1)" "\<not> inTestMode (setup_receiver rom1)"
    "currentSequence (setup_receiver rom1) = 0"
    by (simp_all add: setup_defs)
  show ?thesis
    using out_of_range_packet_stored [OF got big, of "setup_receiver rom1"] got st
    by simp
qed

section \<open>Receiver: the button's short press\<close>

text \<open>
  C2, as the code has it. When step 3 of the loop processes a short press (the press
  flag is set and the button is read released), it resets the animation cursor to 0
  and consumes the flag. Outside Diagnostic it toggles inTestMode and sets the current
  sequence to 0. In Diagnostic it only leaves Diagnostic: the test flag and the
  current sequence stay as they are.
\<close>

theorem short_press_effect:
  assumes "buttonPressFlag s" and "\<not> buttonLow e"
  shows "animationStep (handleButtonInput e s) = 0
    \<and> \<not> buttonPressFlag (handleButtonInput e s)
    \<and> \<not> inDiagnosticMode (handleButtonInput e s)
    \<and> (if inDiagnosticMode s
        then inTestMode (handleButtonInput e s) = inTestMode s
           \<and> currentSequence (handleButtonInput e s) = currentSequence s
        else inTestMode (handleButtonInput e s) = (\<not> inTestMode s)
           \<and> currentSequence (handleButtonInput e s) = 0)"
  using assms by (simp add: handleButtonInput_def Let_def)

theorem short_press_effect_witness:
  "buttonPressFlag in_diagnostic_with_3 \<and> inDiagnosticMode in_diagnostic_with_3
   \<and> inTestMode (handleButtonInput (idle_at 8100) in_diagnostic_with_3)
        = inTestMode in_diagnostic_with_3
   \<and> currentSequence (handleButtonInput (idle_at 8100) in_diagnostic_with_3)
        = currentSequence in_diagnostic_with_3
   \<and> animationStep (handleButtonInput (idle_at 8100) in_diagnostic_with_3) = 0
   \<and> buttonPressFlag (button_isr 1000 (setup_receiver rom1))
   \<and> \<not> inDiagnosticMode (button_isr 1000 (setup_receiver rom1))
   \<and> inTestMode (handleButtonInput (idle_at 1100) (button_isr 1000 (setup_receiver rom1)))
   \<and> currentSequence (handleButtonInput (idle_at 1100) (button_isr 1000 (setup_receiver rom1)))
        = 0"
proof -
  have a: "buttonPressFlag in_diagnostic_with_3" "inDiagnosticMode in_diagnostic_with_3"
    by (simp_all add: in_diagnostic_with_3_def loop_fields control_defs
        before_button_fields sample_defs setup_defs)
  have b: "buttonPressFlag (button_isr 1000 (setup_receiver rom1))"
    "\<not> inDiagnosticMode (button_isr 1000 (setup_receiver rom1))"
    "\<not> inTestMode (button_isr 1000 (setup_receiver rom1))"
    by (simp_all add: control_defs setup_defs)
  have c: "\<not> buttonLow (idle_at t)" for t
    by (simp add: idle_at_def)
  show ?thesis
    using short_press_effect [OF a(1) c, of 8100]
      short_press_effect [OF b(1) c, of 1100] a b
    by simp
qed

text \<open>
  C2 as stated fails for the transition from Diagnostic to Ready. The receiver is
  held into Diagnostic, receives a packet selecting sequence 3 there, and the button
  is pressed again and released: the pass that processes the short press ends in
  Ready with the current sequence still 3.
\<close>

theorem short_press_from_diagnostic_counterexample:
  "mode in_diagnostic_with_3 = Diagnostic
   \<and> shortPress (idle_at 8100) in_diagnostic_with_3
   \<and> mode (loop (idle_at 8100) in_diagnostic_with_3) = Ready
   \<and> currentSequence (loop (idle_at 8100) in_diagnostic_with_3) = 3"
  by (simp add: mode_def shortPress_def in_diagnostic_with_3_def loop_fields control_defs
      before_button_fields sample_defs setup_defs)

section \<open>Receiver: the mode flags\<close>

lemma control_flags:
  assumes "\<not> (inTestMode s \<and> inDiagnosticMode s)" and "\<not> inSetupMode s"
  shows "\<not> (inTestMode (control e s) \<and> inDiagnosticMode (control e s))"
    and "\<not> inSetupMode (control e s)"
proof -
  let ?t = "handleTimeouts e (handleRadioInput e s)"
  have "\<not> (inTestMode ?t \<and> inDiagnosticMode ?t)" "\<not> inSetupMode ?t"
    using assms by (simp_all add: before_button_fields)
  then show "\<not> (inTestMode (control e s) \<and> inDiagnosticMode (control e s))"
    and "\<not> inSetupMode (control e s)"
    by (auto simp: control_def handleButtonInput_def Let_def)
qed

lemma reachable_flags:
  "reachable s \<Longrightarrow> \<not> (inTestMode s \<and> inDiagnosticMode s) \<and> \<not> inSetupMode s"
proof (induction rule: reachable.induct)
  case (start rom)
  show ?case by (simp add: setup_receiver_def power_on_def showIfDirty_def markAllOff_def
        strip_show_def strip_clear_def)
next
  case (pass s e)
  then show ?case using control_flags [of s e] by (simp add: loop_fields)
next
  case (press s t)
  then show ?case by (simp add: button_isr_def)
qed

text \<open>
  C5. In every state the receiver can reach (from \<open>setup()\<close> by passes of the loop
  and button interrupts), inTestMode and inDiagnosticMode are not both set; and a
  pass that processes a short press in Diagnostic ends in Ready.
\<close>

theorem diagnostic_short_press_ready:
  assumes "reachable s"
  shows "\<not> (inTestMode s \<and> inDiagnosticMode s)
    \<and> (mode s = Diagnostic \<and> shortPress e s \<longrightarrow> mode (loop e s) = Ready)"
proof -
  have inv: "\<not> (inTestMode s \<and> inDiagnosticMode s)" "\<not> inSetupMode s"
    using reachable_flags [OF assms] by simp_all
  have "mode (loop e s) = Ready" if d: "mode s = Diagnostic" and p: "shortPress e s"
  proof -
    let ?t = "handleTimeouts e (handleRadioInput e s)"
    have diag: "inDiagnosticMode s"
      using d by (simp add: mode_def split: if_splits)
    then have test: "\<not> inTestMode s" using inv by simp
    have "inDiagnosticMode ?t" "\<not> inTestMode ?t" "\<not> inSetupMode ?t" "buttonPressFlag ?t"
      using diag test inv p by (simp_all add: before_button_fields shortPress_def)
    then have "\<not> inDiagnosticMode (control e s) \<and> \<not> inTestMode (control e s)
        \<and> \<not> inSetupMode (control e s)"
      using p by (simp add: control_def handleButtonInput_def Let_def shortPress_def)
    then show ?thesis by (simp add: mode_def loop_fields)
  qed
  then show ?thesis using inv by blast
qed

theorem diagnostic_short_press_ready_witness:
  "reachable in_diagnostic_with_3
   \<and> mode in_diagnostic_with_3 = Diagnostic
   \<and> shortPress (idle_at 8100) in_diagnostic_with_3
   \<and> \<not> (inTestMode in_diagnostic_with_3 \<and> inDiagnosticMode in_diagnostic_with_3)
   \<and> mode (loop (idle_at 8100) in_diagnostic_with_3) = Ready"
proof -
  have r: "reachable in_diagnostic_with_3"
    unfolding in_diagnostic_with_3_def run.simps fire.simps
    by (intro reachable.intros)
  have d: "mode in_diagnostic_with_3 = Diagnostic"
    "shortPress (idle_at 8100) in_diagnostic_with_3"
    by (simp_all add: mode_def shortPress_def in_diagnostic_with_3_def loop_fields
        control_defs before_button_fields sample_defs setup_defs)
  show ?thesis
    using diagnostic_short_press_ready [OF r, of "idle_at 8100"] r d by simp
qed

section \<open>Receiver: which animation a pass runs\<close>

lemma control_unchanged:
  assumes "noChange (currentSequence s) e"
    and "\<not> shortPress e s" and "\<not> longHoldConfirmed e s"
    and "received e \<noteq> None \<or> millis e - lastPacketTime s \<le> PACKET_TIMEOUT_MS"
    and "currentSequence s = 0 \<or> millis e - lastActiveAnimationTime s \<le> STRIP_TIMEOUT_MS"
  shows "currentSequence (control e s) = currentSequence s"
proof -
  let ?r = "handleRadioInput e s"
  have r: "currentSequence ?r = currentSequence s"
    "lastActiveAnimationTime ?r = lastActiveAnimationTime s"
    "lastPacketTime ?r = (if received e = None then lastPacketTime s else millis e)"
    using assms(1)
    by (auto simp: noChange_def handleRadioInput_def Let_def split: option.splits)
  have t: "currentSequence (handleTimeouts e ?r) = currentSequence s"
    using assms(4,5) r
    by (auto simp: handleTimeouts_def Let_def PACKET_TIMEOUT_MS_def not_less)
  have "currentSequence (handleButtonInput e (handleTimeouts e ?r))
      = currentSequence (handleTimeouts e ?r)"
    using assms(2,3)
    by (auto simp: handleButtonInput_def Let_def shortPress_def longHoldConfirmed_def
        before_button_fields)
  then show ?thesis by (simp add: control_def t)
qed

text \<open>
  C6. In every pass, step 4 runs \<open>animationOff\<close> when the receiver is in Diagnostic,
  whatever the stored sequence; \<open>animationRainbow\<close> when it is in Test, whatever the
  stored sequence; and otherwise the animation that the table gives for the stored
  sequence (0 Off, 1 Rainbow, 2 Chase, 3 Wipe, 4 Sparkle, 5 Cylon). Mode and sequence
  are those that steps 1 to 3 of the same pass leave. The stored sequence is the same
  after a pass in which no packet with a different sequenceId is received, the button
  neither completes a short press nor confirms a long hold, and neither timeout has
  run out.
\<close>

theorem dispatch_and_persistence:
  "(inDiagnosticMode (control e s) \<longrightarrow>
      loop e s = updateDisplayThrottled e (showIfDirty (animate Off e (control e s))))
   \<and> (\<not> inDiagnosticMode (control e s) \<and> inTestMode (control e s) \<longrightarrow>
      loop e s = updateDisplayThrottled e (showIfDirty (animate Rainbow e (control e s))))
   \<and> (\<not> inDiagnosticMode (control e s) \<and> \<not> inTestMode (control e s)
        \<and> pattern_table (unat (currentSequence (control e s))) = Some pat \<longrightarrow>
      loop e s = updateDisplayThrottled e (showIfDirty (animate pat e (control e s))))
   \<and> (noChange (currentSequence s) e
        \<and> \<not> shortPress e s \<and> \<not> longHoldConfirmed e s
        \<and> (received e \<noteq> None \<or> millis e - lastPacketTime s \<le> PACKET_TIMEOUT_MS)
        \<and> (currentSequence s = 0
            \<or> millis e - lastActiveAnimationTime s \<le> STRIP_TIMEOUT_MS) \<longrightarrow>
      currentSequence (loop e s) = currentSequence s)"
proof -
  have table: "runSequence e t = animate pat e t"
    if "pattern_table (unat (currentSequence t)) = Some pat" for t
  proof -
    have eq: "(currentSequence t = k) = (unat (currentSequence t) = unat k)" for k
      by (simp add: word_unat_eq_iff)
    show ?thesis
      using that unfolding runSequence_def pattern_table_def eq
      by (auto split: if_splits)
  qed
  have d1: "inDiagnosticMode (control e s) \<longrightarrow>
      loop e s = updateDisplayThrottled e (showIfDirty (animate Off e (control e s)))"
    by (simp add: loop_def runLEDs_def)
  have d2: "\<not> inDiagnosticMode (control e s) \<and> inTestMode (control e s) \<longrightarrow>
      loop e s = updateDisplayThrottled e (showIfDirty (animate Rainbow e (control e s)))"
    by (simp add: loop_def runLEDs_def)
  have d3: "\<not> inDiagnosticMode (control e s) \<and> \<not> inTestMode (control e s)
        \<and> pattern_table (unat (currentSequence (control e s))) = Some pat \<longrightarrow>
      loop e s = updateDisplayThrottled e (showIfDirty (animate pat e (control e s)))"
    using table [of "control e s"] by (simp add: loop_def runLEDs_def)
  have d4: "noChange (currentSequence s) e
        \<and> \<not> shortPress e s \<and> \<not> longHoldConfirmed e s
        \<and> (received e \<noteq> None \<or> millis e - lastPacketTime s \<le> PACKET_TIMEOUT_MS)
        \<and> (currentSequence s = 0
            \<or> millis e - lastActiveAnimationTime s \<le> STRIP_TIMEOUT_MS) \<longrightarrow>
      currentSequence (loop e s) = currentSequence s"
    using control_unchanged [of s e] by (simp add: loop_fields)
  show ?thesis
    by (intro conjI d1 d2 d3 d4)
qed

theorem dispatch_and_persistence_witness:
  "inDiagnosticMode (control (held_at 8100) in_diagnostic_with_3)
   \<and> loop (held_at 8100) in_diagnostic_with_3
       = updateDisplayThrottled (held_at 8100)
           (showIfDirty (animationOff (control (held_at 8100) in_diagnostic_with_3)))
   \<and> \<not> inDiagnosticMode (control (idle_at 1200) in_test_mode)
   \<and> inTestMode (control (idle_at 1200) in_test_mode)
   \<and> loop (idle_at 1200) in_test_mode
       = updateDisplayThrottled (idle_at 1200)
           (showIfDirty (animationRainbow (idle_at 1200) (control (idle_at 1200) in_test_mode)))
   \<and> \<not> inDiagnosticMode (control (idle_at 1500) running_chase)
   \<and> \<not> inTestMode (control (idle_at 1500) running_chase)
   \<and> currentSequence (control (idle_at 1500) running_chase) = 2
   \<and> loop (idle_at 1500) running_chase
       = updateDisplayThrottled (idle_at 1500)
           (showIfDirty (animationChase (idle_at 1500) (control (idle_at 1500) running_chase)))
   \<and> currentSequence (loop (idle_at 1500) running_chase) = currentSequence running_chase"
proof -
  have a: "inDiagnosticMode (control (held_at 8100) in_diagnostic_with_3)"
    by (simp add: in_diagnostic_with_3_def loop_fields control_defs
        before_button_fields sample_defs setup_defs)
  have b: "\<not> inDiagnosticMode (control (idle_at 1200) in_test_mode)"
    "inTestMode (control (idle_at 1200) in_test_mode)"
    by (simp_all add: in_test_mode_def loop_fields control_defs
        before_button_fields sample_defs setup_defs)
  have c: "currentSequence running_chase = 2" "\<not> buttonPressFlag running_chase"
    "lastPacketTime running_chase = 1000" "lastActiveAnimationTime running_chase = 1000"
    by (simp_all add: running_chase_def loop_fields control_defs
        before_button_fields sample_defs setup_defs)
  have c': "\<not> inDiagnosticMode (control (idle_at 1500) running_chase)"
    "\<not> inTestMode (control (idle_at 1500) running_chase)"
    "currentSequence (control (idle_at 1500) running_chase) = 2"
    by (simp_all add: running_chase_def loop_fields control_defs
        before_button_fields sample_defs setup_defs)
  have t: "pattern_table (unat (currentSequence (control (idle_at 1500) running_chase)))
      = Some Chase"
    by (simp add: c' pattern_table_def)
  have q: "noChange (currentSequence running_chase) (idle_at 1500)"
    "\<not> shortPress (idle_at 1500) running_chase"
    "\<not> longHoldConfirmed (idle_at 1500) running_chase"
    "millis (idle_at 1500) - lastPacketTime running_chase \<le> PACKET_TIMEOUT_MS"
    "millis (idle_at 1500) - lastActiveAnimationTime running_chase \<le> STRIP_TIMEOUT_MS"
    by (simp_all add: c noChange_def shortPress_def longHoldConfirmed_def sample_defs
        PACKET_TIMEOUT_MS_def STRIP_TIMEOUT_MS_def)
  note d1 = dispatch_and_persistence [of "held_at 8100" in_diagnostic_with_3 Off]
  note d2 = dispatch_and_persistence [of "idle_at 1200" in_test_mode Off]
  note d3 = dispatch_and_persistence [of "idle_at 1500" running_chase Chase]
  have w1: "loop (held_at 8100) in_diagnostic_with_3
       = updateDisplayThrottled (held_at 8100)
           (showIfDirty (animate Off (held_at 8100) (control (held_at 8100) in_diagnostic_with_3)))"
    using d1 a by blast
  have w2: "loop (idle_at 1200) in_test_mode
       = updateDisplayThrottled (idle_at 1200)
           (showIfDirty (animate Rainbow (idle_at 1200) (control (idle_at 1200) in_test_mode)))"
    using d2 b by blast
  have w3: "loop (idle_at 1500) running_chase
       = updateDisplayThrottled (idle_at 1500)
           (showIfDirty (animate Chase (idle_at 1500) (control (idle_at 1500) running_chase)))"
    using d3 c' t by blast
  have w4: "currentSequence (loop (idle_at 1500) running_chase) = currentSequence running_chase"
    using d3 q by blast
  show ?thesis
    using a b c' w4 by (simp only: w1 w2 w3 animate.simps simp_thms)
qed

section \<open>Receiver: the two timeouts\<close>

lemma silent_pass_keeps:
  assumes "received e = None"
  shows "lastPacketTime (loop e s) = lastPacketTime s"
    and "lastActiveAnimationTime (loop e s) = lastActiveAnimationTime s"
    and "currentSequence s = 0 \<Longrightarrow> currentSequence (loop e s) = 0"
  using assms
  by (simp_all add: loop_fields control_def button_keeps_times handleButtonInput_def
      handleTimeouts_def handleRadioInput_def Let_def)

lemma silent_fire_keeps:
  assumes "silent ev"
  shows "lastPacketTime (fire ev s) = lastPacketTime s"
    and "currentSequence s = 0 \<Longrightarrow> currentSequence (fire ev s) = 0"
  using assms by (cases ev; simp add: silent_pass_keeps button_isr_def)+

lemma silent_run_keeps:
  assumes "\<forall>ev \<in> set evs. silent ev"
  shows "lastPacketTime (run evs s) = lastPacketTime s"
    and "currentSequence s = 0 \<Longrightarrow> currentSequence (run evs s) = 0"
  using assms by (induction evs arbitrary: s) (simp_all add: silent_fire_keeps)

lemma run_append: "run (xs @ ys) s = run ys (run xs s)"
  by (induction xs arbitrary: s) simp_all

lemma packet_pass_time:
  "received e = Some p \<Longrightarrow> lastPacketTime (loop e s) = millis e"
  by (simp add: loop_fields control_def button_keeps_times handleTimeouts_def
      handleRadioInput_def Let_def markDirty_def strip_clear_def)

lemma timeout_pass:
  assumes "received e = None" and "millis e - lastPacketTime s > 3000"
  shows "currentSequence (loop e s) = 0"
proof -
  have "currentSequence (handleTimeouts e (handleRadioInput e s)) = 0"
    using assms
    by (simp add: handleTimeouts_def handleRadioInput_def Let_def PACKET_TIMEOUT_MS_def)
  then have "currentSequence (control e s) = 0"
    by (simp add: control_def handleButtonInput_def Let_def)
  then show ?thesis by (simp add: loop_fields)
qed

text \<open>
  C1, as the code has it. Let the last packet be received by a pass at time t0, and
  let every later event be a button interrupt or a pass that receives nothing. Then
  any such pass at which more than 3000 ms have elapsed since t0 (in the wrapping
  32-bit clock) ends with the current sequence 0, and so does every event after it,
  for as long as no packet is received.
\<close>

theorem no_signal_timeout:
  assumes "received e0 = Some p"
    and "\<forall>ev \<in> set before. silent ev"
    and "received e = None" and "millis e - millis e0 > 3000"
    and "\<forall>ev \<in> set after. silent ev"
  shows "currentSequence (run (Pass e0 # before @ [Pass e]) s) = 0
    \<and> currentSequence (run (Pass e0 # before @ Pass e # after) s) = 0"
proof -
  let ?s1 = "run before (loop e0 s)"
  have "lastPacketTime ?s1 = millis e0"
    using assms(1,2) by (simp add: silent_run_keeps packet_pass_time)
  then have z: "currentSequence (loop e ?s1) = 0"
    using assms(3,4) by (simp add: timeout_pass)
  then have "currentSequence (run after (loop e ?s1)) = 0"
    using assms(5) by (simp add: silent_run_keeps)
  with z show ?thesis by (simp add: run_append)
qed

theorem no_signal_timeout_witness:
  "received (packet_at 1000 2) = Some \<lparr>packetCounter = 1, sequenceId = 2\<rparr>
   \<and> silent (Pass (idle_at 2000)) \<and> silent (Interrupt 5000) \<and> silent (Pass (idle_at 6000))
   \<and> received (idle_at 4001) = None
   \<and> millis (idle_at 4001) - millis (packet_at 1000 2) = 3001
   \<and> currentSequence (run [Pass (packet_at 1000 2), Pass (idle_at 2000)]
        (setup_receiver rom1)) = 2
   \<and> currentSequence (run [Pass (packet_at 1000 2), Pass (idle_at 2000), Pass (idle_at 4001)]
        (setup_receiver rom1)) = 0
   \<and> currentSequence (run [Pass (packet_at 1000 2), Pass (idle_at 2000), Pass (idle_at 4001),
        Interrupt 5000, Pass (idle_at 6000)] (setup_receiver rom1)) = 0"
proof -
  have h: "received (packet_at 1000 2) = Some \<lparr>packetCounter = 1, sequenceId = 2\<rparr>"
    "\<forall>ev \<in> set [Pass (idle_at 2000)]. silent ev"
    "received (idle_at 4001) = None"
    "millis (idle_at 4001) - millis (packet_at 1000 2) > 3000"
    "\<forall>ev \<in> set [Interrupt 5000, Pass (idle_at 6000)]. silent ev"
    by (simp_all add: sample_defs)
  have live: "currentSequence (run [Pass (packet_at 1000 2), Pass (idle_at 2000)]
        (setup_receiver rom1)) = 2"
    by (simp add: loop_fields control_defs before_button_fields sample_defs setup_defs)
  show ?thesis
    using no_signal_timeout [OF h, of "setup_receiver rom1"] h live
    by (simp add: sample_defs)
qed

text \<open>
  C1 as stated fails at the boundary: the guard is \<open>millis() - lastPacketTime > 3000\<close>.
  A packet selecting sequence 2 is received at 1000 ms; the next pass, at 4000 ms and
  with no packet, is a pass at t0 + 3000 ms and leaves the current sequence at 2.
\<close>

theorem no_signal_boundary_counterexample:
  "received (packet_at 1000 2) = Some \<lparr>packetCounter = 1, sequenceId = 2\<rparr>
   \<and> received (idle_at 4000) = None
   \<and> millis (idle_at 4000) = millis (packet_at 1000 2) + 3000
   \<and> lastPacketTime (loop (packet_at 1000 2) (setup_receiver rom1)) = 1000
   \<and> currentSequence (run [Pass (packet_at 1000 2), Pass (idle_at 4000)]
        (setup_receiver rom1)) = 2"
  by (simp add: loop_fields control_defs before_button_fields sample_defs setup_defs)

lemma timer_pass:
  "lastActiveAnimationTime (loop e s) =
     (case received e of
        None \<Rightarrow> lastActiveAnimationTime s
      | Some p \<Rightarrow>
          if sequenceId p \<noteq> currentSequence s \<and> sequenceId p \<noteq> 0 then millis e
          else lastActiveAnimationTime s)"
  by (simp add: loop_fields control_def button_keeps_times handleTimeouts_def
      handleRadioInput_def Let_def markDirty_def strip_clear_def word_greater_zero_iff
      split: option.splits)

lemma changing_pass:
  assumes "received e = Some p" and "sequenceId p \<noteq> currentSequence s"
    and "sequenceId p \<noteq> 0" and "\<not> buttonPressFlag s"
  shows "currentSequence (loop e s) = sequenceId p"
    and "lastActiveAnimationTime (loop e s) = millis e"
    and "\<not> buttonPressFlag (loop e s)"
proof -
  let ?r = "handleRadioInput e s"
  have r: "currentSequence ?r = sequenceId p" "lastActiveAnimationTime ?r = millis e"
    "lastPacketTime ?r = millis e"
    using assms(1-3)
    by (simp_all add: handleRadioInput_def Let_def markDirty_def strip_clear_def
        word_greater_zero_iff)
  have t: "currentSequence (handleTimeouts e ?r) = sequenceId p"
    "lastActiveAnimationTime (handleTimeouts e ?r) = millis e"
    using r by (simp_all add: handleTimeouts_def Let_def PACKET_TIMEOUT_MS_def
        STRIP_TIMEOUT_MS_def)
  have b: "\<not> buttonPressFlag (handleTimeouts e ?r)"
    using assms(4) by (simp add: before_button_fields)
  show "currentSequence (loop e s) = sequenceId p"
    and "lastActiveAnimationTime (loop e s) = millis e"
    and "\<not> buttonPressFlag (loop e s)"
    using t b by (simp_all add: loop_fields control_def idle_button)
qed

lemma sustaining_pass:
  assumes "carries q e" and "currentSequence s = q" and "\<not> buttonPressFlag s"
    and "millis e - lastActiveAnimationTime s \<le> 1800000"
  shows "currentSequence (loop e s) = q"
    and "lastActiveAnimationTime (loop e s) = lastActiveAnimationTime s"
    and "\<not> buttonPressFlag (loop e s)"
proof -
  let ?r = "handleRadioInput e s"
  obtain p where p: "received e = Some p" "sequenceId p = q"
    using assms(1) by (auto simp: carries_def split: option.splits)
  have r: "currentSequence ?r = q" "lastActiveAnimationTime ?r = lastActiveAnimationTime s"
    "lastPacketTime ?r = millis e"
    using p assms(2) by (simp_all add: handleRadioInput_def Let_def)
  have t: "currentSequence (handleTimeouts e ?r) = q"
    "lastActiveAnimationTime (handleTimeouts e ?r) = lastActiveAnimationTime s"
    using r assms(4)
    by (auto simp: handleTimeouts_def Let_def PACKET_TIMEOUT_MS_def STRIP_TIMEOUT_MS_def
        not_less)
  have b: "\<not> buttonPressFlag (handleTimeouts e ?r)"
    using assms(3) by (simp add: before_button_fields)
  show "currentSequence (loop e s) = q"
    and "lastActiveAnimationTime (loop e s) = lastActiveAnimationTime s"
    and "\<not> buttonPressFlag (loop e s)"
    using t b by (simp_all add: loop_fields control_def idle_button)
qed

text \<open>
  Repeated identical packets sustain the sequence: with no button event pending,
  passes that each receive a packet carrying the stored non-zero sequence, none later
  than 1800000 ms after the timer, form a sustained run.
\<close>

lemma identical_packets_sustained:
  assumes "\<forall>e \<in> set es. carries q e \<and> millis e - lastActiveAnimationTime s \<le> 1800000"
    and "currentSequence s = q" and "q \<noteq> 0" and "\<not> buttonPressFlag s"
  shows "sustained (map Pass es) s"
  using assms
proof (induction es arbitrary: s)
  case Nil
  then show ?case by simp
next
  case (Cons e es)
  have step: "currentSequence (loop e s) = q"
    "lastActiveAnimationTime (loop e s) = lastActiveAnimationTime s"
    "\<not> buttonPressFlag (loop e s)"
    using Cons.prems sustaining_pass [of q e s] by simp_all
  have calm: "noChange (currentSequence s) e"
    using Cons.prems by (auto simp: carries_def noChange_def split: option.splits)
  have "sustained (map Pass es) (loop e s)"
    using Cons.IH [of "loop e s"] Cons.prems step by simp
  then show ?case using Cons.prems(2,3) calm by simp
qed

lemma noChange_pass:
  assumes "noChange (currentSequence s) e"
  shows "currentSequence (loop e s) = currentSequence s \<or> currentSequence (loop e s) = 0"
    and "lastActiveAnimationTime (loop e s) = lastActiveAnimationTime s"
proof -
  let ?r = "handleRadioInput e s"
  have r: "currentSequence ?r = currentSequence s"
    using assms by (auto simp: noChange_def handleRadioInput_def Let_def split: option.splits)
  have t: "currentSequence (handleTimeouts e x) = currentSequence x
      \<or> currentSequence (handleTimeouts e x) = 0" for x
    by (simp add: handleTimeouts_def Let_def)
  have b: "currentSequence (handleButtonInput e x) = currentSequence x
      \<or> currentSequence (handleButtonInput e x) = 0" for x
    by (simp add: handleButtonInput_def Let_def)
  have "currentSequence (control e s) = currentSequence s \<or> currentSequence (control e s) = 0"
    unfolding control_def using r t [of ?r] b [of "handleTimeouts e ?r"] by auto
  then show "currentSequence (loop e s) = currentSequence s \<or> currentSequence (loop e s) = 0"
    by (simp add: loop_fields)
  show "lastActiveAnimationTime (loop e s) = lastActiveAnimationTime s"
    using assms by (auto simp: timer_pass noChange_def split: option.splits)
qed

lemma calm_fire:
  assumes "calm (currentSequence s) ev" and "currentSequence (fire ev s) \<noteq> 0"
  shows "currentSequence (fire ev s) = currentSequence s"
    and "lastActiveAnimationTime (fire ev s) = lastActiveAnimationTime s"
proof -
  show "currentSequence (fire ev s) = currentSequence s"
  proof (cases ev)
    case (Pass e)
    then show ?thesis using assms noChange_pass(1) [of s e] by auto
  next
    case (Interrupt t)
    then show ?thesis by (simp add: button_isr_def)
  qed
  show "lastActiveAnimationTime (fire ev s) = lastActiveAnimationTime s"
  proof (cases ev)
    case (Pass e)
    then show ?thesis using assms(1) noChange_pass(2) [of s e] by simp
  next
    case (Interrupt t)
    then show ?thesis by (simp add: button_isr_def)
  qed
qed

lemma sustained_nonzero: "sustained evs s \<Longrightarrow> currentSequence s \<noteq> 0"
  by (cases evs) simp_all

lemma sustained_keeps:
  assumes "sustained evs s"
  shows "currentSequence (run evs s) = currentSequence s
    \<and> lastActiveAnimationTime (run evs s) = lastActiveAnimationTime s"
  using assms
proof (induction evs arbitrary: s)
  case Nil
  then show ?case by simp
next
  case (Cons ev evs)
  have rest: "sustained evs (fire ev s)" and c: "calm (currentSequence s) ev"
    using Cons.prems by simp_all
  have "currentSequence (fire ev s) \<noteq> 0"
    using sustained_nonzero [OF rest] .
  then have "currentSequence (fire ev s) = currentSequence s"
    "lastActiveAnimationTime (fire ev s) = lastActiveAnimationTime s"
    using calm_fire [OF c] by simp_all
  then show ?case using Cons.IH [OF rest] by simp
qed

lemma cutoff_pass:
  assumes "currentSequence s \<noteq> 0" and "noChange (currentSequence s) e"
    and "millis e - lastActiveAnimationTime s > 1800000"
  shows "currentSequence (loop e s) = 0"
proof -
  let ?r = "handleRadioInput e s"
  have r: "currentSequence ?r = currentSequence s"
    "lastActiveAnimationTime ?r = lastActiveAnimationTime s"
    using assms(2)
    by (auto simp: noChange_def handleRadioInput_def Let_def split: option.splits)
  have "currentSequence (handleTimeouts e ?r) = 0"
    using r assms(1,3) by (simp add: handleTimeouts_def Let_def STRIP_TIMEOUT_MS_def)
  then have "currentSequence (control e s) = 0"
    by (simp add: control_def handleButtonInput_def Let_def)
  then show ?thesis by (simp add: loop_fields)
qed

text \<open>
  C4, as the code has it. A pass records lastActiveAnimationTime exactly when it
  receives a packet whose sequenceId differs from the stored one and is not 0. Take
  any state of the receiver and any run from it along which the sequence is
  sustained: it is never 0, and no pass receives a packet with a different
  sequenceId; the passes may receive the identical packet or nothing, and the button
  interrupt may fire. Along such a run the stored sequence and the timer do not
  change, however many identical packets arrive. A pass after it that again receives
  no different packet (the identical one, or none), at which more than 1800000 ms
  have elapsed since the timer was recorded (in the wrapping 32-bit clock), ends
  with the current sequence 0.
\<close>

theorem idle_cutoff:
  assumes "sustained evs s" and "noChange (currentSequence s) e"
    and "millis e - lastActiveAnimationTime s > 1800000"
  shows "currentSequence (run evs s) = currentSequence s
    \<and> lastActiveAnimationTime (run evs s) = lastActiveAnimationTime s
    \<and> currentSequence (loop e (run evs s)) = 0
    \<and> lastActiveAnimationTime (loop e' s') =
        (case received e' of
           None \<Rightarrow> lastActiveAnimationTime s'
         | Some p' \<Rightarrow>
             if sequenceId p' \<noteq> currentSequence s' \<and> sequenceId p' \<noteq> 0 then millis e'
             else lastActiveAnimationTime s')"
proof -
  let ?m = "run evs s"
  have k: "currentSequence ?m = currentSequence s"
    "lastActiveAnimationTime ?m = lastActiveAnimationTime s"
    using sustained_keeps [OF assms(1)] by simp_all
  have "currentSequence ?m \<noteq> 0"
    using k(1) sustained_nonzero [OF assms(1)] by simp
  then have "currentSequence (loop e ?m) = 0"
    using cutoff_pass [of ?m e] assms(2,3) k by simp
  then show ?thesis using k timer_pass [of e' s'] by simp
qed

theorem idle_cutoff_witness:
  "sustained [Pass (idle_at 7500), Interrupt 8000, Pass (packet_at 8100 3),
        Pass (idle_at 9000), Pass (packet_at 1807000 3)]
      (loop (held_packet_at 7000 3) in_diagnostic)
   \<and> currentSequence (loop (held_packet_at 7000 3) in_diagnostic) = 3
   \<and> lastActiveAnimationTime (loop (held_packet_at 7000 3) in_diagnostic) = 7000
   \<and> noChange 3 (packet_at 1807001 3)
   \<and> millis (packet_at 1807001 3) - 7000 > 1800000
   \<and> currentSequence (run [Pass (idle_at 7500), Interrupt 8000, Pass (packet_at 8100 3),
        Pass (idle_at 9000), Pass (packet_at 1807000 3)]
      (loop (held_packet_at 7000 3) in_diagnostic)) = 3
   \<and> lastActiveAnimationTime (run [Pass (idle_at 7500), Interrupt 8000,
        Pass (packet_at 8100 3), Pass (idle_at 9000), Pass (packet_at 1807000 3)]
      (loop (held_packet_at 7000 3) in_diagnostic)) = 7000
   \<and> currentSequence (loop (packet_at 1807001 3)
        (run [Pass (idle_at 7500), Interrupt 8000, Pass (packet_at 8100 3),
           Pass (idle_at 9000), Pass (packet_at 1807000 3)]
         (loop (held_packet_at 7000 3) in_diagnostic))) = 0"
proof -
  define s0 where "s0 = loop (held_packet_at 7000 3) in_diagnostic"
  define s1 where "s1 = loop (idle_at 7500) s0"
  define s2 where "s2 = button_isr 8000 s1"
  define s3 where "s3 = loop (packet_at 8100 3) s2"
  define s4 where "s4 = loop (idle_at 9000) s3"
  define s5 where "s5 = loop (packet_at 1807000 3) s4"
  let ?evs = "[Pass (idle_at 7500), Interrupt 8000, Pass (packet_at 8100 3),
        Pass (idle_at 9000), Pass (packet_at 1807000 3)]"
  have f0: "currentSequence s0 = 3" "lastActiveAnimationTime s0 = 7000"
    "lastPacketTime s0 = 7000" "\<not> buttonPressFlag s0" "inDiagnosticMode s0"
    "last_interrupt_time s0 = 1000"
    by (simp_all add: s0_def in_diagnostic_def loop_fields control_defs
        before_button_fields sample_defs setup_defs)
  have f1: "currentSequence s1 = 3" "lastActiveAnimationTime s1 = 7000"
    "lastPacketTime s1 = 7000" "\<not> buttonPressFlag s1" "inDiagnosticMode s1"
    "last_interrupt_time s1 = 1000"
    by (simp_all add: s1_def f0 loop_fields control_defs before_button_fields sample_defs)
  have f2: "currentSequence s2 = 3" "lastActiveAnimationTime s2 = 7000"
    "lastPacketTime s2 = 7000" "buttonPressFlag s2" "inDiagnosticMode s2"
    by (simp_all add: s2_def f1 button_isr_def)
  have f3: "currentSequence s3 = 3" "lastActiveAnimationTime s3 = 7000"
    "lastPacketTime s3 = 8100" "\<not> buttonPressFlag s3"
    by (simp_all add: s3_def f2 loop_fields control_defs before_button_fields sample_defs)
  have f4: "currentSequence s4 = 3" "lastActiveAnimationTime s4 = 7000"
    "lastPacketTime s4 = 8100" "\<not> buttonPressFlag s4"
    by (simp_all add: s4_def f3 loop_fields control_defs before_button_fields sample_defs)
  have f5: "currentSequence s5 = 3"
    by (simp add: s5_def f4 loop_fields control_defs before_button_fields sample_defs)
  have q: "noChange 3 (idle_at t)" "noChange 3 (packet_at t 3)" for t
    by (simp_all add: noChange_def sample_defs)
  have h1: "sustained ?evs s0"
    unfolding sustained.simps calm.simps fire.simps
      s1_def [symmetric] s2_def [symmetric] s3_def [symmetric] s4_def [symmetric]
      s5_def [symmetric]
    by (simp add: f0 f1 f2 f3 f4 f5 q)
  have m: "millis (packet_at 1807001 3) - 7000 > 1800000"
    by (simp add: sample_defs)
  have h2: "noChange (currentSequence s0) (packet_at 1807001 3)"
    using q(2) by (simp only: f0)
  have h3: "millis (packet_at 1807001 3) - lastActiveAnimationTime s0 > 1800000"
    using m by (simp only: f0)
  have w: "currentSequence (run ?evs s0) = currentSequence s0
      \<and> lastActiveAnimationTime (run ?evs s0) = lastActiveAnimationTime s0
      \<and> currentSequence (loop (packet_at 1807001 3) (run ?evs s0)) = 0"
    using idle_cutoff [OF h1 h2 h3, where e' = "packet_at 1000 3" and s' = s0]
    by blast
  have w1: "currentSequence (run ?evs s0) = 3"
    and w2: "lastActiveAnimationTime (run ?evs s0) = 7000"
    and w3: "currentSequence (loop (packet_at 1807001 3) (run ?evs s0)) = 0"
    using w by (simp_all only: f0)
  show ?thesis
    unfolding s0_def [symmetric]
    by (intro conjI h1 f0(1,2) q(2) m w1 w2 w3)
qed

text \<open>
  C4 as stated fails at the boundary: the guard is
  \<open>millis() - lastActiveAnimationTime > 1800000\<close>. Sequence 3 is selected at 1000 ms
  and packets carrying 3 keep arriving. At 1801000 ms it has been stored for exactly
  1800000 ms; the pass at that time leaves it at 3, and so does the next pass in the
  same millisecond.
\<close>

theorem idle_cutoff_boundary_counterexample:
  "carries 3 (packet_at 1801000 3)
   \<and> millis (packet_at 1801000 3) - millis (packet_at 1000 3) = 1800000
   \<and> currentSequence (run (map Pass [packet_at 1000 3]) (setup_receiver rom1)) = 3
   \<and> lastActiveAnimationTime (run (map Pass [packet_at 1000 3]) (setup_receiver rom1)) = 1000
   \<and> currentSequence (run (map Pass [packet_at 1000 3, packet_at 1801000 3])
        (setup_receiver rom1)) = 3
   \<and> currentSequence (run (map Pass [packet_at 1000 3, packet_at 1801000 3,
        packet_at 1801000 3]) (setup_receiver rom1)) = 3"
  by (simp add: carries_def loop_fields control_defs before_button_fields sample_defs
      setup_defs)

section \<open>Receiver: the long hold\<close>

lemma longHoldCount_append:
  "longHoldCount (xs @ ys) s = longHoldCount xs s + longHoldCount ys (run (map Pass xs) s)"
  by (induction xs arbitrary: s) simp_all

lemma held_early_pass:
  assumes "buttonPressFlag s" and "\<not> inDiagnosticMode s" and "buttonLow e"
    and "millis e - buttonPressTime s < 5000"
  shows "\<not> longHoldConfirmed e (handleTimeouts e (handleRadioInput e s))"
    and "buttonPressFlag (loop e s)" and "\<not> inDiagnosticMode (loop e s)"
    and "buttonPressTime (loop e s) = buttonPressTime s"
  using assms
  by (simp_all add: longHoldConfirmed_def loop_fields control_def handleButtonInput_def
      before_button_fields not_le)

lemma held_early_run:
  assumes "\<forall>e \<in> set es. buttonLow e \<and> millis e - buttonPressTime s < 5000"
    and "buttonPressFlag s" and "\<not> inDiagnosticMode s"
  shows "longHoldCount es s = 0 \<and> buttonPressFlag (run (map Pass es) s)
    \<and> \<not> inDiagnosticMode (run (map Pass es) s)
    \<and> buttonPressTime (run (map Pass es) s) = buttonPressTime s"
  using assms
proof (induction es arbitrary: s)
  case Nil
  then show ?case by simp
next
  case (Cons e es)
  have step: "\<not> longHoldConfirmed e (handleTimeouts e (handleRadioInput e s))"
    "buttonPressFlag (loop e s)" "\<not> inDiagnosticMode (loop e s)"
    "buttonPressTime (loop e s) = buttonPressTime s"
    using Cons.prems held_early_pass [of s e] by simp_all
  then show ?case using Cons.IH [of "loop e s"] Cons.prems(1) by simp
qed

lemma confirming_pass:
  assumes "buttonPressFlag s" and "\<not> inDiagnosticMode s" and "buttonLow e"
    and "millis e - buttonPressTime s \<ge> 5000"
  shows "longHoldConfirmed e (handleTimeouts e (handleRadioInput e s))"
    and "\<not> buttonPressFlag (loop e s)" and "inDiagnosticMode (loop e s)"
    and "\<not> inTestMode (loop e s)" and "currentSequence (loop e s) = 0"
  using assms
  by (simp_all add: longHoldConfirmed_def loop_fields control_def handleButtonInput_def
      before_button_fields)

lemma consumed_pass:
  assumes "\<not> buttonPressFlag s"
  shows "\<not> longHoldConfirmed e (handleTimeouts e (handleRadioInput e s))"
    and "\<not> buttonPressFlag (loop e s)"
    and "inDiagnosticMode (loop e s) = inDiagnosticMode s"
    and "inTestMode (loop e s) = inTestMode s"
  using assms
  by (simp_all add: longHoldConfirmed_def loop_fields control_def handleButtonInput_def
      before_button_fields)

lemma consumed_run:
  assumes "\<not> buttonPressFlag s"
  shows "longHoldCount es s = 0 \<and> \<not> buttonPressFlag (run (map Pass es) s)
    \<and> inDiagnosticMode (run (map Pass es) s) = inDiagnosticMode s
    \<and> inTestMode (run (map Pass es) s) = inTestMode s"
  using assms
proof (induction es arbitrary: s)
  case Nil
  then show ?case by simp
next
  case (Cons e es)
  then show ?case using consumed_pass [of s e] Cons.IH [of "loop e s"] by simp
qed

text \<open>
  C3. A press is registered by the interrupt at time tp (more than 200 ms after the
  previous interrupt) while the receiver is not in Diagnostic, and the button is then
  read held by every pass, with no other interrupt, until a pass reads it released.
  The passes before 5000 ms have elapsed do not take the long-press branch; the first
  pass at which at least 5000 ms have elapsed takes it, entering Diagnostic with the
  test flag cleared and the current sequence 0; no later pass of the hold takes it
  again, and neither does the pass that reads the release: that pass leaves the
  receiver in Diagnostic, so over the whole press the branch is taken exactly once
  and no short press follows.
\<close>

theorem long_hold_once:
  assumes "\<not> inDiagnosticMode s" and "tp - last_interrupt_time s > 200"
    and "\<forall>e \<in> set early. buttonLow e \<and> millis e - tp < 5000"
    and "buttonLow e" and "millis e - tp \<ge> 5000"
    and "\<forall>e \<in> set later. buttonLow e"
    and "\<not> buttonLow r"
  shows "longHoldCount early (button_isr tp s) = 0
    \<and> longHoldCount (early @ [e]) (button_isr tp s) = 1
    \<and> inDiagnosticMode (run (map Pass (early @ [e])) (button_isr tp s))
    \<and> \<not> inTestMode (run (map Pass (early @ [e])) (button_isr tp s))
    \<and> currentSequence (run (map Pass (early @ [e])) (button_isr tp s)) = 0
    \<and> longHoldCount (early @ e # later @ [r]) (button_isr tp s) = 1
    \<and> inDiagnosticMode (run (map Pass (early @ e # later @ [r])) (button_isr tp s))
    \<and> \<not> inTestMode (run (map Pass (early @ e # later @ [r])) (button_isr tp s))"
proof -
  let ?p = "button_isr tp s"
  let ?a = "run (map Pass early) ?p"
  let ?b = "loop e ?a"
  let ?c = "run (map Pass (later @ [r])) ?b"
  have p: "buttonPressFlag ?p" "\<not> inDiagnosticMode ?p" "buttonPressTime ?p = tp"
    using assms(1,2) by (simp_all add: button_isr_def)
  have a: "longHoldCount early ?p = 0 \<and> buttonPressFlag ?a \<and> \<not> inDiagnosticMode ?a
      \<and> buttonPressTime ?a = tp"
    using held_early_run [of early ?p] assms(3) p by simp
  have b: "longHoldConfirmed e (handleTimeouts e (handleRadioInput e ?a))"
    "\<not> buttonPressFlag ?b" "inDiagnosticMode ?b" "\<not> inTestMode ?b" "currentSequence ?b = 0"
    using confirming_pass [of ?a e] a assms(4,5) by simp_all
  have c: "longHoldCount (later @ [r]) ?b = 0 \<and> inDiagnosticMode ?c \<and> \<not> inTestMode ?c"
    using consumed_run [of ?b "later @ [r]"] b by simp
  have one: "longHoldCount (early @ [e]) ?p = 1"
    using a b(1) by (simp add: longHoldCount_append)
  have all: "longHoldCount (early @ e # later @ [r]) ?p = 1"
    using a b(1) c by (simp add: longHoldCount_append)
  have ra: "run (map Pass (early @ [e])) ?p = ?b"
    by (simp add: run_append)
  have rc: "run (map Pass (early @ e # later @ [r])) ?p = ?c"
    by (simp add: run_append)
  show ?thesis
    unfolding ra rc using a b c one all by simp
qed

theorem long_hold_once_witness:
  "\<not> inDiagnosticMode (setup_receiver rom1)
   \<and> (1000 :: 32 word) - last_interrupt_time (setup_receiver rom1) > 200
   \<and> buttonLow (held_at 3000) \<and> millis (held_at 3000) - 1000 < 5000
   \<and> buttonLow (held_at 6000) \<and> millis (held_at 6000) - 1000 \<ge> 5000
   \<and> buttonLow (held_packet_at 7000 3) \<and> \<not> buttonLow (idle_at 9000)
   \<and> longHoldCount [held_at 3000, held_at 6000, held_packet_at 7000 3, idle_at 9000]
        (button_isr 1000 (setup_receiver rom1)) = 1
   \<and> inDiagnosticMode
        (run (map Pass [held_at 3000, held_at 6000, held_packet_at 7000 3, idle_at 9000])
          (button_isr 1000 (setup_receiver rom1)))
   \<and> \<not> inTestMode
        (run (map Pass [held_at 3000, held_at 6000, held_packet_at 7000 3, idle_at 9000])
          (button_isr 1000 (setup_receiver rom1)))"
proof -
  have h: "\<not> inDiagnosticMode (setup_receiver rom1)"
    "(1000 :: 32 word) - last_interrupt_time (setup_receiver rom1) > 200"
    "\<forall>e \<in> set [held_at 3000]. buttonLow e \<and> millis e - 1000 < 5000"
    "buttonLow (held_at 6000)" "millis (held_at 6000) - 1000 \<ge> 5000"
    "\<forall>e \<in> set [held_packet_at 7000 3]. buttonLow e"
    "\<not> buttonLow (idle_at 9000)"
    by (simp_all add: sample_defs setup_defs)
  show ?thesis
    using long_hold_once [OF h] h by simp
qed

section \<open>Receiver: flushing the strip\<close>

lemma control_showCount: "showCount (control e s) = showCount s"
  by (simp add: control_def handleButtonInput_def handleTimeouts_def handleRadioInput_def
      Let_def markDirty_def strip_clear_def split: option.splits)

lemma control_frame:
  assumes "noChange (currentSequence s) e"
  shows "frameDirty (control e s) = frameDirty s"
    and "stripIsOff (control e s) = stripIsOff s"
    and "pixels (control e s) = pixels s"
  using assms
  by (auto simp: noChange_def control_def handleButtonInput_def handleTimeouts_def
      handleRadioInput_def Let_def split: option.splits)

lemma loop_showCount:
  "showCount (loop e s) =
     (if frameDirty (runLEDs e (control e s)) then Suc (showCount s) else showCount s)"
  by (simp add: loop_def updateDisplayThrottled_def showIfDirty_def strip_show_def
      runLEDs_fields control_showCount)

lemma loop_clean: "\<not> frameDirty (loop e s)"
  by (simp add: loop_def updateDisplayThrottled_def showIfDirty_def strip_show_def)

lemma off_pass:
  assumes "rendersOff (control e s)"
  shows "stripIsOff (loop e s)"
    and "showCount (loop e s) =
      (if stripIsOff (control e s) \<and> \<not> frameDirty (control e s)
       then showCount s else Suc (showCount s))"
    and "pixels (loop e s) =
      (if stripIsOff (control e s) then pixels (control e s)
       else map (\<lambda>_. 0) (pixels (control e s)))"
  using rendersOff_runLEDs [OF assms, of e]
  by (simp_all add: loop_def updateDisplayThrottled_def showIfDirty_def strip_show_def
      animationOff_def markAllOff_def strip_clear_def control_showCount)

text \<open>
  C7, as the code has it. \<open>showIfDirty\<close> calls \<open>strip.show()\<close> exactly when
  frameDirty is set and clears the flag with it; so a pass flushes once if the flag is
  set when step 4 is done, and not at all otherwise, and ends with the flag clear.
  Whether a flush happens is decided by the flags, not by the pixels: when two
  consecutive passes both render Off and the second receives no packet that changes
  the sequence, the second pass does not flush and leaves the pixels alone, and the
  first flushes once unless the strip is already marked off and is not dirty, in
  which case neither pass flushes.
\<close>

theorem flush_iff_dirty:
  "showCount (showIfDirty t) = (if frameDirty t then Suc (showCount t) else showCount t)
   \<and> \<not> frameDirty (showIfDirty t) \<and> pixels (showIfDirty t) = pixels t
   \<and> showCount (loop e s) =
       (if frameDirty (runLEDs e (control e s)) then Suc (showCount s) else showCount s)
   \<and> \<not> frameDirty (loop e s)
   \<and> (rendersOff (control e1 s1) \<and> rendersOff (control e2 (loop e1 s1))
        \<and> noChange (currentSequence (loop e1 s1)) e2 \<longrightarrow>
      showCount (loop e2 (loop e1 s1)) = showCount (loop e1 s1)
      \<and> pixels (loop e2 (loop e1 s1)) = pixels (loop e1 s1)
      \<and> showCount (loop e1 s1) =
          (if stripIsOff (control e1 s1) \<and> \<not> frameDirty (control e1 s1)
           then showCount s1 else Suc (showCount s1)))"
proof -
  have a: "showCount (showIfDirty t) = (if frameDirty t then Suc (showCount t) else showCount t)"
    "\<not> frameDirty (showIfDirty t)" "pixels (showIfDirty t) = pixels t"
    by (simp_all add: showIfDirty_def strip_show_def)
  have two: "showCount (loop e2 (loop e1 s1)) = showCount (loop e1 s1)
      \<and> pixels (loop e2 (loop e1 s1)) = pixels (loop e1 s1)
      \<and> showCount (loop e1 s1) =
          (if stripIsOff (control e1 s1) \<and> \<not> frameDirty (control e1 s1)
           then showCount s1 else Suc (showCount s1))"
    if first: "rendersOff (control e1 s1)" and second: "rendersOff (control e2 (loop e1 s1))"
      and same: "noChange (currentSequence (loop e1 s1)) e2"
  proof -
    let ?m = "loop e1 s1"
    have m: "stripIsOff ?m" "\<not> frameDirty ?m"
      using off_pass(1) [OF first] loop_clean by simp_all
    have c: "stripIsOff (control e2 ?m)" "\<not> frameDirty (control e2 ?m)"
      "pixels (control e2 ?m) = pixels ?m"
      using control_frame [OF same] m by simp_all
    show ?thesis
      using off_pass(2,3) [OF second] off_pass(2) [OF first] c by simp
  qed
  show ?thesis
    using a loop_showCount [of e s] loop_clean [of e s] two by blast
qed

theorem flush_iff_dirty_witness:
  "rendersOff (control (idle_at 4100) running_chase)
   \<and> rendersOff (control (idle_at 4101) (loop (idle_at 4100) running_chase))
   \<and> noChange (currentSequence (loop (idle_at 4100) running_chase)) (idle_at 4101)
   \<and> \<not> stripIsOff (control (idle_at 4100) running_chase)
   \<and> showCount (loop (idle_at 4100) running_chase) = Suc (showCount running_chase)
   \<and> showCount (loop (idle_at 4101) (loop (idle_at 4100) running_chase))
       = Suc (showCount running_chase)
   \<and> pixels (loop (idle_at 4101) (loop (idle_at 4100) running_chase))
       = pixels (loop (idle_at 4100) running_chase)"
proof -
  have f: "currentSequence running_chase = 2" "\<not> buttonPressFlag running_chase"
    "lastPacketTime running_chase = 1000" "lastActiveAnimationTime running_chase = 1000"
    "\<not> inDiagnosticMode running_chase" "\<not> inTestMode running_chase"
    by (simp_all add: running_chase_def loop_fields control_defs
        before_button_fields sample_defs setup_defs)
  have lit: "\<not> stripIsOff running_chase"
    by (simp add: running_chase_def loop_def updateDisplayThrottled_def showIfDirty_def
        strip_show_def runLEDs_def runSequence_def animationChase_def control_defs
        sample_defs setup_defs)
  have n: "noChange q (idle_at t)" for q t
    by (simp add: noChange_def sample_defs)
  have h1: "rendersOff (control (idle_at 4100) running_chase)"
    using f by (simp add: rendersOff_def control_defs sample_defs)
  have h2: "rendersOff (control (idle_at 4101) (loop (idle_at 4100) running_chase))"
    using f by (simp add: rendersOff_def loop_fields control_defs before_button_fields
        sample_defs)
  have h3: "\<not> stripIsOff (control (idle_at 4100) running_chase)"
    using control_frame(2) [where s = running_chase and e = "idle_at 4100", OF n] lit
    by simp
  note w = flush_iff_dirty [of running_chase "idle_at 4100" running_chase "idle_at 4100"
      running_chase "idle_at 4101"]
  have "showCount (loop (idle_at 4101) (loop (idle_at 4100) running_chase))
        = showCount (loop (idle_at 4100) running_chase)
      \<and> pixels (loop (idle_at 4101) (loop (idle_at 4100) running_chase))
        = pixels (loop (idle_at 4100) running_chase)
      \<and> showCount (loop (idle_at 4100) running_chase) =
          (if stripIsOff (control (idle_at 4100) running_chase)
              \<and> \<not> frameDirty (control (idle_at 4100) running_chase)
           then showCount running_chase else Suc (showCount running_chase))"
    using w h1 h2 n by blast
  then show ?thesis
    using h1 h2 h3 n by simp
qed

text \<open>
  C7 as stated fails: identical pixel state does not coalesce flushes. In Diagnostic
  the strip is blank and stays blank, yet two consecutive passes that each receive a
  packet with a new sequenceId flush twice; and from start-up two consecutive passes
  rendering Off on the already blank strip do not flush at all.
\<close>

theorem coalescing_counterexample:
  "pixels in_diagnostic = replicate NUM_LEDS 0
   \<and> pixels (loop (held_packet_at 7000 1) in_diagnostic) = replicate NUM_LEDS 0
   \<and> pixels (loop (held_packet_at 7001 2) (loop (held_packet_at 7000 1) in_diagnostic))
       = replicate NUM_LEDS 0
   \<and> showCount (loop (held_packet_at 7001 2) (loop (held_packet_at 7000 1) in_diagnostic))
       = Suc (Suc (showCount in_diagnostic))
   \<and> pixels (loop (idle_at 2) (loop (idle_at 1) (setup_receiver rom1)))
       = pixels (setup_receiver rom1)
   \<and> showCount (loop (idle_at 2) (loop (idle_at 1) (setup_receiver rom1)))
       = showCount (setup_receiver rom1)"
  by (simp add: in_diagnostic_def render_defs control_defs sample_defs setup_defs)

section \<open>Receiver: the Setup sub-mode\<close>

lemma one_le_word: "(1 \<le> (x :: 8 word)) = (x \<noteq> 0)"
proof -
  have "(1 \<le> unat x) = (unat x \<noteq> 0)" by auto
  then show ?thesis by (simp add: word_le_nat_alt unat_eq_0)
qed

lemma loadPropID_range: "1 \<le> fst (loadPropID rom) \<and> fst (loadPropID rom) \<le> 18"
  by (auto simp: loadPropID_def Let_def not_less one_le_word)

lemma loadPropID_saved:
  assumes "1 \<le> ident" and "ident \<le> 18"
  shows "loadPropID (savePropID ident rom) = (ident, savePropID ident rom)"
  using assms by (auto simp: loadPropID_def savePropID_def Let_def)

lemma nextID_range:
  assumes "1 \<le> t" and "t \<le> 18"
  shows "(if t + 1 > 18 then 1 else t + 1) = nextID t"
    and "1 \<le> nextID t" and "nextID t \<le> 18"
proof -
  have u: "1 \<le> unat t" "unat t \<le> 18"
    using assms by (simp_all add: word_le_nat_alt)
  then have s: "unat (t + 1) = unat t + 1"
    by (simp add: unat_word_ariths)
  show "(if t + 1 > 18 then 1 else t + 1) = nextID t"
    using u s by (auto simp: nextID_def word_less_nat_alt word_unat_eq_iff)
  show "1 \<le> nextID t" "nextID t \<le> 18"
    using u s by (auto simp: nextID_def word_le_nat_alt word_unat_eq_iff)
qed

lemma setup_iteration_range:
  assumes "1 \<le> tempPropID st" and "tempPropID st \<le> 18"
  shows "case setup_iteration p rom st of
           Inl rom' \<Rightarrow> rom' 0 = tempPropID st
         | Inr st' \<Rightarrow> 1 \<le> tempPropID st' \<and> tempPropID st' \<le> 18"
  using assms nextID_range [OF assms]
  by (auto simp: setup_iteration_def Let_def savePropID_def)

lemma setup_polls_range:
  assumes "1 \<le> tempPropID st" and "tempPropID st \<le> 18"
  shows "case setup_polls ps rom st of
           Inl rom' \<Rightarrow> 1 \<le> rom' 0 \<and> rom' 0 \<le> 18
         | Inr st' \<Rightarrow> 1 \<le> tempPropID st' \<and> tempPropID st' \<le> 18"
  using assms
proof (induction ps arbitrary: st)
  case Nil
  then show ?case by simp
next
  case (Cons p ps)
  show ?case
  proof (cases "setup_iteration p rom st")
    case (Inl rom')
    then show ?thesis using setup_iteration_range [OF Cons.prems, of p rom] Cons.prems
      by simp
  next
    case (Inr st')
    then have "1 \<le> tempPropID st'" "tempPropID st' \<le> 18"
      using setup_iteration_range [OF Cons.prems, of p rom] by simp_all
    then show ?thesis using Cons.IH [of st'] Inr by simp
  qed
qed

text \<open>The locals while the button is held, after a press first seen at time \<open>t\<close>.\<close>

lemma press_poll:
  assumes "\<not> lastIsPressed st" and "poll_low p"
  shows "setup_iteration p rom st =
    Inr (st\<lparr>isPressed := True, pressStartTime := poll_millis p, lastIsPressed := True\<rparr>)"
  using assms by (simp add: setup_iteration_def Let_def)

lemma held_polls:
  assumes "\<forall>h \<in> set hs. poll_low h \<and> poll_millis h - pressStartTime st \<le> 3000"
    and "isPressed st" and "lastIsPressed st"
  shows "setup_polls (hs @ rest) rom st = setup_polls rest rom st"
  using assms
proof (induction hs)
  case Nil
  then show ?case by simp
next
  case (Cons h hs)
  have "setup_iteration h rom st = Inr st"
    using Cons.prems by (simp add: setup_iteration_def Let_def not_less)
  then show ?case using Cons by simp
qed

lemma release_poll:
  assumes "lastIsPressed st" and "\<not> poll_low r"
    and "1 \<le> tempPropID st" and "tempPropID st \<le> 18"
  shows "setup_iteration r rom st =
    Inr (st\<lparr>isPressed := False, tempPropID := nextID (tempPropID st),
            lastIsPressed := False\<rparr>)"
proof -
  have e: "nextID (tempPropID st) = (if tempPropID st + 1 > 18 then 1 else tempPropID st + 1)"
    using nextID_range(1) [OF assms(3,4)] by simp
  show ?thesis
    using assms(1,2) by (simp add: setup_iteration_def Let_def e)
qed

lemma long_poll:
  assumes "poll_low l" and "lastIsPressed st"
    and "poll_millis l - pressStartTime st > 3000"
  shows "setup_iteration l rom st = Inl (savePropID (tempPropID st) rom)"
  using assms by (simp add: setup_iteration_def Let_def)

text \<open>
  C8. Let the candidate be within 1 to 18 and the button released. A tap, that is a
  poll that reads the button pressed, then polls that read it held with no more than
  3000 ms elapsed since the first, then a poll that reads it released, leaves the
  loop running with the candidate moved on by one, 18 going to 1. A hold, the same
  but ending in a poll that reads the button still pressed with more than 3000 ms
  elapsed, ends the loop in a restart, with the candidate written to the EEPROM;
  \<open>loadPropID\<close> then returns that candidate, and \<open>setup()\<close> starts the receiver
  with it. Over any polls at all the candidate stays within 1 to 18, and so does what
  a restart leaves in the EEPROM; the candidate the loop starts with, the result of
  \<open>loadPropID\<close>, is within 1 to 18 too.
\<close>

theorem setup_mode_candidate:
  assumes "1 \<le> tempPropID st" and "tempPropID st \<le> 18" and "\<not> lastIsPressed st"
    and "poll_low p"
    and "\<forall>h \<in> set hs. poll_low h \<and> poll_millis h - poll_millis p \<le> 3000"
    and "\<not> poll_low r"
    and "poll_low l" and "poll_millis l - poll_millis p > 3000"
  shows "setup_polls (p # hs @ [r]) rom st =
      Inr (st\<lparr>isPressed := False, pressStartTime := poll_millis p,
              tempPropID := nextID (tempPropID st), lastIsPressed := False\<rparr>)
    \<and> 1 \<le> nextID (tempPropID st) \<and> nextID (tempPropID st) \<le> 18
    \<and> setup_polls (p # hs @ [l]) rom st = Inl (savePropID (tempPropID st) rom)
    \<and> loadPropID (savePropID (tempPropID st) rom)
        = (tempPropID st, savePropID (tempPropID st) rom)
    \<and> propID (setup_receiver (savePropID (tempPropID st) rom)) = tempPropID st
    \<and> (case setup_polls ps rom st of
          Inl rom' \<Rightarrow> 1 \<le> rom' 0 \<and> rom' 0 \<le> 18
        | Inr st' \<Rightarrow> 1 \<le> tempPropID st' \<and> tempPropID st' \<le> 18)
    \<and> 1 \<le> fst (loadPropID rom0) \<and> fst (loadPropID rom0) \<le> 18"
proof -
  let ?h = "st\<lparr>isPressed := True, pressStartTime := poll_millis p, lastIsPressed := True\<rparr>"
  have first: "setup_iteration p rom st = Inr ?h"
    using press_poll [OF assms(3,4)] .
  have hold: "setup_polls (hs @ rest) rom ?h = setup_polls rest rom ?h" for rest
    using held_polls [of hs ?h rest rom] assms(5) by simp
  have "setup_iteration r rom ?h =
      Inr (?h\<lparr>isPressed := False, tempPropID := nextID (tempPropID ?h),
              lastIsPressed := False\<rparr>)"
    using release_poll [of ?h r rom] assms(1,2,6) by simp
  then have tap: "setup_polls (p # hs @ [r]) rom st =
      Inr (st\<lparr>isPressed := False, pressStartTime := poll_millis p,
              tempPropID := nextID (tempPropID st), lastIsPressed := False\<rparr>)"
    using first hold [of "[r]"] by simp
  have long: "setup_polls (p # hs @ [l]) rom st = Inl (savePropID (tempPropID st) rom)"
    using first hold [of "[l]"] long_poll [of l ?h rom] assms(7,8) by simp
  have reload: "loadPropID (savePropID (tempPropID st) rom)
      = (tempPropID st, savePropID (tempPropID st) rom)"
    using loadPropID_saved [OF assms(1,2)] .
  have boot: "propID (setup_receiver (savePropID (tempPropID st) rom)) = tempPropID st"
    using reload by (simp add: setup_receiver_def Let_def)
  show ?thesis
    using tap long reload boot setup_polls_range [OF assms(1,2), of ps rom]
      loadPropID_range [of rom0] nextID_range(2,3) [OF assms(1,2)]
    by simp
qed

theorem setup_mode_candidate_witness:
  "setup_polls [polled 1000 True, polled 1020 True, polled 1040 False] rom1 (candidate 18)
       = Inr \<lparr>tempPropID = 1, pressStartTime = 1000, isPressed = False,
              lastIsPressed = False\<rparr>
   \<and> setup_polls [polled 1000 True, polled 1020 True, polled 4001 True] rom1 (candidate 7)
       = Inl (savePropID 7 rom1)
   \<and> loadPropID (savePropID 7 rom1) = (7, savePropID 7 rom1)
   \<and> propID (setup_receiver (savePropID 7 rom1)) = 7
   \<and> handleSetupMode 7 [polled 1000 True, polled 1020 True, polled 4001 True] rom1
       = Inl (savePropID 7 rom1)"
proof -
  have h: "poll_low (polled 1000 True)"
    "\<forall>h \<in> set [polled 1020 True].
        poll_low h \<and> poll_millis h - poll_millis (polled 1000 True) \<le> 3000"
    "\<not> poll_low (polled 1040 False)"
    "poll_low (polled 4001 True)"
    "poll_millis (polled 4001 True) - poll_millis (polled 1000 True) > 3000"
    by (simp_all add: polled_def)
  have c: "1 \<le> tempPropID (candidate 18)" "tempPropID (candidate 18) \<le> 18"
    "\<not> lastIsPressed (candidate 18)"
    "1 \<le> tempPropID (candidate 7)" "tempPropID (candidate 7) \<le> 18"
    "\<not> lastIsPressed (candidate 7)"
    by (simp_all add: candidate_def)
  have l: "polled 1000 True # [polled 1020 True] @ [q] = [polled 1000 True, polled 1020 True, q]"
    for q by simp
  have v: "(candidate 18)\<lparr>isPressed := False, pressStartTime := poll_millis (polled 1000 True),
        tempPropID := nextID (tempPropID (candidate 18)), lastIsPressed := False\<rparr>
      = \<lparr>tempPropID = 1, pressStartTime = 1000, isPressed = False, lastIsPressed = False\<rparr>"
    "tempPropID (candidate 7) = 7"
    by (simp_all add: candidate_def polled_def nextID_def)
  note a = setup_mode_candidate [OF c(1-3) h, of rom1 "[]" rom1, unfolded l v]
  note b = setup_mode_candidate [OF c(4-6) h, of rom1 "[]" rom1, unfolded l v]
  have a1: "setup_polls [polled 1000 True, polled 1020 True, polled 1040 False] rom1
        (candidate 18)
       = Inr \<lparr>tempPropID = 1, pressStartTime = 1000, isPressed = False,
              lastIsPressed = False\<rparr>"
    using a by blast
  have b1: "setup_polls [polled 1000 True, polled 1020 True, polled 4001 True] rom1
        (candidate 7) = Inl (savePropID 7 rom1)"
    and b2: "loadPropID (savePropID 7 rom1) = (7, savePropID 7 rom1)"
    and b3: "propID (setup_receiver (savePropID 7 rom1)) = 7"
    using b by blast+
  have b4: "handleSetupMode 7 [polled 1000 True, polled 1020 True, polled 4001 True] rom1
       = Inl (savePropID 7 rom1)"
    using b1 by (simp only: handleSetupMode_def candidate_def)
  show ?thesis
    by (intro conjI a1 b1 b2 b3 b4)
qed

section \<open>Transmitter: the packets of a pass\<close>

lemma cycleStep_sends:
  "sent (cycleStep e r) = sent r @
     (if cyclePressed e r
      then [\<lparr>packetCounter = remote_packetCounter r + 1,
             sequenceId = cycled (remote_currentSequence r)\<rparr>]
      else [])"
  "remote_currentSequence (cycleStep e r) =
     (if cyclePressed e r then cycled (remote_currentSequence r) else remote_currentSequence r)"
  "remote_packetCounter (cycleStep e r) =
     (if cyclePressed e r then remote_packetCounter r + 1 else remote_packetCounter r)"
  "lastHeartbeatTime (cycleStep e r) =
     (if cyclePressed e r then remote_millis e else lastHeartbeatTime r)"
  by (simp_all add: cycleStep_def cyclePressed_def checkCycleButtonPress_def
      transmitSequence_def cycled_def Let_def case_prod_beta)

lemma off_after_cycle: "offPressed e (cycleStep e r) = offPressed e r"
  by (simp add: offPressed_def checkOffButtonPress_def cycleStep_def
      checkCycleButtonPress_def transmitSequence_def Let_def case_prod_beta)

lemma offStep_sends:
  "sent (offStep e r) = sent r @
     (if offPressed e r \<and> remote_currentSequence r \<noteq> 0
      then [\<lparr>packetCounter = remote_packetCounter r + 1, sequenceId = 0\<rparr>]
      else [])"
  "remote_currentSequence (offStep e r) =
     (if offPressed e r then 0 else remote_currentSequence r)"
  "remote_packetCounter (offStep e r) =
     (if offPressed e r \<and> remote_currentSequence r \<noteq> 0
      then remote_packetCounter r + 1 else remote_packetCounter r)"
  "lastHeartbeatTime (offStep e r) =
     (if offPressed e r \<and> remote_currentSequence r \<noteq> 0
      then remote_millis e else lastHeartbeatTime r)"
  by (simp_all add: offStep_def offPressed_def checkOffButtonPress_def
      transmitSequence_def Let_def case_prod_beta)

lemma heartbeatStep_sends:
  "sent (heartbeatStep e r) = sent r @
     (if heartbeatDue e r
      then [\<lparr>packetCounter = remote_packetCounter r + 1,
             sequenceId = remote_currentSequence r\<rparr>]
      else [])"
  by (simp add: heartbeatStep_def heartbeatDue_def transmitSequence_def Let_def)

lemma remote_loop_sent:
  "sent (remote_loop e r) = sent (heartbeatStep e (offStep e (cycleStep e r)))"
  by (simp add: remote_loop_def remote_updateDisplay_def Let_def)

text \<open>
  C9, as the code has it. The packets one pass of the transmitter hands to the radio,
  in order: one for a debounced press of the cycle button, carrying the sequence the
  press selects; one carrying 0 for a debounced press of the off button, but only if
  the sequence is not 0 already; and, if neither of these was sent and at least
  500 ms have elapsed since the last transmission, one heartbeat carrying the current
  sequence. Each packet carries the next value of the packet counter.
\<close>

theorem remote_pass_packets:
  "sent (remote_loop e r) =
     (let c = cyclePressed e r;
          q = (if c then cycled (remote_currentSequence r) else remote_currentSequence r);
          n = (if c then remote_packetCounter r + 1 else remote_packetCounter r);
          z = (offPressed e r \<and> q \<noteq> 0)
      in sent r
         @ (if c then [\<lparr>packetCounter = n, sequenceId = q\<rparr>] else [])
         @ (if z then [\<lparr>packetCounter = n + 1, sequenceId = 0\<rparr>] else [])
         @ (if \<not> c \<and> \<not> z \<and> heartbeatDue e r
            then [\<lparr>packetCounter = n + 1, sequenceId = q\<rparr>] else []))"
proof -
  let ?a = "cycleStep e r"
  let ?b = "offStep e ?a"
  have due: "heartbeatDue e ?b =
      (\<not> cyclePressed e r
       \<and> \<not> (offPressed e r \<and> remote_currentSequence ?a \<noteq> 0) \<and> heartbeatDue e r)"
    by (simp add: heartbeatDue_def offStep_sends cycleStep_sends off_after_cycle
        HEARTBEAT_INTERVAL_def)
  show ?thesis
    unfolding remote_loop_sent heartbeatStep_sends due
    by (simp add: offStep_sends cycleStep_sends off_after_cycle Let_def)
qed

text \<open>
  C9 as stated fails for the off button. After start-up the sequence is 0; the off
  button is read pressed at 1000 ms (when the first heartbeat also goes out) and
  still pressed at 1060 ms, where its debounced press is detected. That pass sends
  nothing: the only packet so far is the heartbeat of the pass before.
\<close>

theorem off_press_when_off_counterexample:
  "remote_currentSequence (remote_loop (reads 1000 HIGH LOW) (remote_setup 0)) = 0
   \<and> offPressed (reads 1060 HIGH LOW) (remote_loop (reads 1000 HIGH LOW) (remote_setup 0))
   \<and> sent (remote_loop (reads 1060 HIGH LOW) (remote_loop (reads 1000 HIGH LOW) (remote_setup 0)))
       = sent (remote_loop (reads 1000 HIGH LOW) (remote_setup 0))
   \<and> sent (remote_loop (reads 1000 HIGH LOW) (remote_setup 0))
       = [\<lparr>packetCounter = 1, sequenceId = 0\<rparr>]"
  by (simp add: offPressed_def remote_loop_def cycleStep_def offStep_def heartbeatStep_def
      checkCycleButtonPress_def checkOffButtonPress_def transmitSequence_def
      remote_setup_def reads_def remote_updateDisplay_def Let_def HEARTBEAT_INTERVAL_def
      LCD_TIMEOUT_MS_def DEBOUNCE_DELAY_MS_def)

theorem remote_pass_packets_witness:
  "cyclePressed (reads 1060 LOW HIGH) (remote_loop (reads 1000 LOW HIGH) (remote_setup 0))
   \<and> sent (remote_loop (reads 1060 LOW HIGH) (remote_loop (reads 1000 LOW HIGH) (remote_setup 0)))
       = sent (remote_loop (reads 1000 LOW HIGH) (remote_setup 0))
         @ [\<lparr>packetCounter = 2, sequenceId = 1\<rparr>]
   \<and> heartbeatDue (reads 1560 LOW HIGH)
        (remote_loop (reads 1060 LOW HIGH) (remote_loop (reads 1000 LOW HIGH) (remote_setup 0)))
   \<and> sent (remote_loop (reads 1560 LOW HIGH)
        (remote_loop (reads 1060 LOW HIGH) (remote_loop (reads 1000 LOW HIGH) (remote_setup 0))))
       = sent (remote_loop (reads 1060 LOW HIGH)
           (remote_loop (reads 1000 LOW HIGH) (remote_setup 0)))
         @ [\<lparr>packetCounter = 3, sequenceId = 1\<rparr>]"
proof -
  let ?r1 = "remote_loop (reads 1000 LOW HIGH) (remote_setup 0)"
  let ?r2 = "remote_loop (reads 1060 LOW HIGH) ?r1"
  have f1: "cyclePressed (reads 1060 LOW HIGH) ?r1"
    "\<not> offPressed (reads 1060 LOW HIGH) ?r1"
    "remote_currentSequence ?r1 = 0" "remote_packetCounter ?r1 = 1"
    by (simp_all add: cyclePressed_def offPressed_def remote_loop_def cycleStep_def
        offStep_def heartbeatStep_def checkCycleButtonPress_def checkOffButtonPress_def
        transmitSequence_def remote_setup_def reads_def remote_updateDisplay_def Let_def
        HEARTBEAT_INTERVAL_def LCD_TIMEOUT_MS_def DEBOUNCE_DELAY_MS_def)
  have f2: "\<not> cyclePressed (reads 1560 LOW HIGH) ?r2"
    "\<not> offPressed (reads 1560 LOW HIGH) ?r2" "heartbeatDue (reads 1560 LOW HIGH) ?r2"
    "remote_currentSequence ?r2 = 1" "remote_packetCounter ?r2 = 2"
    by (simp_all add: cyclePressed_def offPressed_def heartbeatDue_def remote_loop_def
        cycleStep_def offStep_def heartbeatStep_def checkCycleButtonPress_def
        checkOffButtonPress_def transmitSequence_def remote_setup_def reads_def
        remote_updateDisplay_def Let_def HEARTBEAT_INTERVAL_def LCD_TIMEOUT_MS_def
        DEBOUNCE_DELAY_MS_def)
  have w1: "sent ?r2 = sent ?r1 @ [\<lparr>packetCounter = 2, sequenceId = 1\<rparr>]"
    by (simp add: remote_pass_packets [of "reads 1060 LOW HIGH" ?r1] f1 cycled_def Let_def)
  have w2: "sent (remote_loop (reads 1560 LOW HIGH) ?r2)
      = sent ?r2 @ [\<lparr>packetCounter = 3, sequenceId = 1\<rparr>]"
    by (simp add: remote_pass_packets [of "reads 1560 LOW HIGH" ?r2] f2 Let_def)
  show ?thesis
    by (intro conjI f1(1) f2(3) w1 w2)
qed

end
